theory Spec2Isabelle
  imports Complex_Main
begin

section \<open>JSON values and the JavaScript built-ins the handlers use\<close>

text \<open>
  A value of a parsed request body or of a parsed model reply. A number carries the exact
  rational value of its literal (the rounding of \<^verbatim>\<open>JSON.parse\<close> to a double is not
  modelled; integers below \<open>2^53\<close> are exact). A string is its UTF-8 bytes. The list of an
  object is its properties in enumeration order. \<open>undefined\<close> is \<open>None\<close> of
  \<open>json option\<close>.
\<close>

datatype json =
  JNull
  | JBool bool
  | JNumber rat
  | JString string
  | JArray "json list"
  | JObject "(string \<times> json) list"

datatype js_error = Error string | SyntaxError | TypeError | GatewayError

definition is_digit :: "char \<Rightarrow> bool" where
  "is_digit c = (48 \<le> (of_char c :: nat) \<and> (of_char c :: nat) \<le> 57)"

definition digit_val :: "char \<Rightarrow> nat" where
  "digit_val c = of_char c - 48"

definition nat_of_digits :: "string \<Rightarrow> nat" where
  "nat_of_digits ds = foldl (\<lambda>n c. 10 * n + digit_val c) 0 ds"

function toString :: "nat \<Rightarrow> string" where
  "toString n =
     (if n < 10 then [''0123456789'' ! n]
      else toString (n div 10) @ [''0123456789'' ! (n mod 10)])"
  by pat_completeness auto
termination
  by (relation "measure id") auto

declare toString.simps [simp del]

subsection \<open>String.prototype.trim, replace and match\<close>

text \<open>
  The white space of \<^verbatim>\<open>trim\<close> and of the regular expression class \<^verbatim>\<open>\s\<close>, on
  ASCII: tab, line feed, vertical tab, form feed, carriage return and space (the non-ASCII
  white space of JavaScript is not modelled).
\<close>

definition is_space :: "char \<Rightarrow> bool" where
  "is_space c = ((of_char c :: nat) \<in> {9, 10, 11, 12, 13, 32})"

definition trim :: "string \<Rightarrow> string" where
  "trim s = rev (dropWhile is_space (rev (dropWhile is_space s)))"

definition starts_with :: "string \<Rightarrow> string \<Rightarrow> bool" where
  "starts_with p s = (take (length p) s = p)"

text \<open>
  \<^verbatim>\<open>text.replace(/```json|```/g, "")\<close>: scanning from the left, a fence followed by
  \<^verbatim>\<open>json\<close> is dropped whole, any other fence is dropped, every other character is kept.
  The first argument counts the characters of a match still to drop.
\<close>

fun strip_fences :: "nat \<Rightarrow> string \<Rightarrow> string" where
  "strip_fences k [] = []"
| "strip_fences (Suc k) (c # cs) = strip_fences k cs"
| "strip_fences 0 (c # cs) =
     (if starts_with ''```json'' (c # cs) then strip_fences (Suc (Suc (Suc (Suc (Suc (Suc 0)))))) cs
      else if starts_with ''```'' (c # cs) then strip_fences (Suc (Suc 0)) cs
      else c # strip_fences 0 cs)"

definition replace_fences :: "string \<Rightarrow> string" where
  "replace_fences s = strip_fences 0 s"

text \<open>
  The longest prefix of a string that ends in the character \<open>b\<close>: what a greedy
  \<^verbatim>\<open>[\s\S]*\<close> (or \<^verbatim>\<open>.*\<close> under the flag \<^verbatim>\<open>s\<close>) followed by \<open>b\<close> matches.
\<close>

fun longest_upto :: "char \<Rightarrow> string \<Rightarrow> string option" where
  "longest_upto b [] = None"
| "longest_upto b (c # cs) =
     (case longest_upto b cs of
        Some p \<Rightarrow> Some (c # p)
      | None \<Rightarrow> if c = b then Some [c] else None)"

text \<open>
  \<^verbatim>\<open>s.match(/\[.*\]/s)\<close> with \<open>a = [\<close>, \<open>b = ]\<close> and \<^verbatim>\<open>s.match(/\{[\s\S]*\}/)\<close> with
  braces: the leftmost \<open>a\<close> after which a \<open>b\<close> occurs, up to the last \<open>b\<close>.
\<close>

fun match_span :: "char \<Rightarrow> char \<Rightarrow> string \<Rightarrow> string option" where
  "match_span a b [] = None"
| "match_span a b (c # cs) =
     (if c = a then
        (case longest_upto b cs of
           Some p \<Rightarrow> Some (c # p)
         | None \<Rightarrow> match_span a b cs)
      else match_span a b cs)"

text \<open>
  The capture group of \<^verbatim>\<open>/```(?:json)?\s*(\{[\s\S]*\})\s*```/\<close>. \<open>fenced_close\<close> is the
  longest prefix ending in a closing brace that white space and a fence follow;
  \<open>fenced_body\<close> is the match of \<^verbatim>\<open>\s*(\{[\s\S]*\})\s*```\<close> at the start of a string;
  \<open>fenced_at\<close> is the match of the whole expression at the start of a string, trying the
  optional \<^verbatim>\<open>json\<close> first; \<open>match_fenced\<close> takes the leftmost start that matches.
\<close>

fun fenced_close :: "string \<Rightarrow> string option" where
  "fenced_close [] = None"
| "fenced_close (c # cs) =
     (case fenced_close cs of
        Some p \<Rightarrow> Some (c # p)
      | None \<Rightarrow>
          if c = CHR ''}'' \<and> starts_with ''```'' (dropWhile is_space cs) then Some [c]
          else None)"

definition fenced_body :: "string \<Rightarrow> string option" where
  "fenced_body s =
     (case dropWhile is_space s of
        [] \<Rightarrow> None
      | c # cs \<Rightarrow>
          if c = CHR ''{'' then map_option ((#) c) (fenced_close cs) else None)"

definition fenced_at :: "string \<Rightarrow> string option" where
  "fenced_at s =
     (if starts_with ''```'' s then
        (case (if starts_with ''json'' (drop 3 s) then fenced_body (drop 7 s) else None) of
           Some m \<Rightarrow> Some m
         | None \<Rightarrow> fenced_body (drop 3 s))
      else None)"

fun match_fenced :: "string \<Rightarrow> string option" where
  "match_fenced [] = None"
| "match_fenced (c # cs) =
     (case fenced_at (c # cs) of
        Some m \<Rightarrow> Some m
      | None \<Rightarrow> match_fenced cs)"

subsection \<open>JSON.parse\<close>

text \<open>
  A model of the built-in \<^verbatim>\<open>JSON.parse\<close> (ECMA-404): a recursive-descent parser. A
  repeated key keeps its first position and takes the last value, and keys that are
  array indices are enumerated first, in ascending order, as JavaScript objects do. An
  escape \<^verbatim>\<open>\uXXXX\<close> is decoded to the UTF-8 bytes of its code unit (surrogate pairs are
  not combined). A failed parse, a \<^verbatim>\<open>SyntaxError\<close> in JavaScript, is \<open>None\<close>.
\<close>

definition is_json_ws :: "char \<Rightarrow> bool" where
  "is_json_ws c = ((of_char c :: nat) \<in> {9, 10, 13, 32})"

definition array_index :: "string \<Rightarrow> nat option" where
  "array_index k =
     (if k \<noteq> [] \<and> list_all is_digit k \<and> (k = ''0'' \<or> hd k \<noteq> CHR ''0'')
         \<and> nat_of_digits k < 4294967295
      then Some (nat_of_digits k) else None)"

fun insert_index :: "nat \<Rightarrow> string \<Rightarrow> json \<Rightarrow> (string \<times> json) list \<Rightarrow> (string \<times> json) list" where
  "insert_index i k v [] = [(k, v)]"
| "insert_index i k v (p # kvs) =
     (case array_index (fst p) of
        Some j \<Rightarrow> if j < i then p # insert_index i k v kvs else (k, v) # p # kvs
      | None \<Rightarrow> (k, v) # p # kvs)"

text \<open>The assignment \<^verbatim>\<open>o[k] = v\<close> on the properties of an object.\<close>

definition obj_set :: "string \<Rightarrow> json \<Rightarrow> (string \<times> json) list \<Rightarrow> (string \<times> json) list" where
  "obj_set k v kvs =
     (if k \<in> fst ` set kvs then map (\<lambda>p. if fst p = k then (k, v) else p) kvs
      else case array_index k of
             Some i \<Rightarrow> insert_index i k v kvs
           | None \<Rightarrow> kvs @ [(k, v)])"

definition hex_val :: "char \<Rightarrow> nat option" where
  "hex_val c =
     (let n = (of_char c :: nat) in
      if 48 \<le> n \<and> n \<le> 57 then Some (n - 48)
      else if 65 \<le> n \<and> n \<le> 70 then Some (n - 55)
      else if 97 \<le> n \<and> n \<le> 102 then Some (n - 87)
      else None)"

definition hex4 :: "char \<Rightarrow> char \<Rightarrow> char \<Rightarrow> char \<Rightarrow> nat option" where
  "hex4 a b c d =
     (case (hex_val a, hex_val b, hex_val c, hex_val d) of
        (Some w, Some x, Some y, Some z) \<Rightarrow> Some (4096 * w + 256 * x + 16 * y + z)
      | _ \<Rightarrow> None)"

definition utf8 :: "nat \<Rightarrow> string" where
  "utf8 n =
     (if n < 128 then [char_of n]
      else if n < 2048 then [char_of (192 + n div 64), char_of (128 + n mod 64)]
      else [char_of (224 + n div 4096), char_of (128 + n div 64 mod 64),
            char_of (128 + n mod 64)])"

definition unescape :: "char \<Rightarrow> char option" where
  "unescape e =
     (if e = CHR 0x22 \<or> e = CHR 0x5C \<or> e = CHR ''/'' then Some e
      else if e = CHR ''b'' then Some (CHR 0x08)
      else if e = CHR ''f'' then Some (CHR 0x0C)
      else if e = CHR ''n'' then Some (CHR 0x0A)
      else if e = CHR ''r'' then Some (CHR 0x0D)
      else if e = CHR ''t'' then Some (CHR 0x09)
      else None)"

text \<open>The characters of a string literal after its opening quote, and what follows it.\<close>

fun parse_chars :: "string \<Rightarrow> (string \<times> string) option" where
  "parse_chars [] = None"
| "parse_chars (c # cs) =
     (if c = CHR 0x22 then Some ([], cs)
      else if c = CHR 0x5C then
        (case cs of
           [] \<Rightarrow> None
         | e # r \<Rightarrow>
             if e = CHR ''u'' then
               (case r of
                  h1 # h2 # h3 # h4 # r' \<Rightarrow>
                    (case hex4 h1 h2 h3 h4 of
                       None \<Rightarrow> None
                     | Some n \<Rightarrow> map_option (apfst ((@) (utf8 n))) (parse_chars r'))
                | _ \<Rightarrow> None)
             else
               (case unescape e of
                  None \<Rightarrow> None
                | Some d \<Rightarrow> map_option (apfst ((#) d)) (parse_chars r)))
      else if (of_char c :: nat) < 32 then None
      else map_option (apfst ((#) c)) (parse_chars cs))"

text \<open>
  A number literal at the start of a string: an optional minus, an integer part without
  a leading zero, an optional fraction, an optional exponent.
\<close>

definition parse_number :: "string \<Rightarrow> (rat \<times> string) option" where
  "parse_number s =
     (let neg = starts_with ''-'' s;
          s1 = (if neg then tl s else s);
          ip = (if starts_with ''0'' s1 then ''0'' else takeWhile is_digit s1);
          s2 = drop (length ip) s1;
          has_frac = starts_with ''.'' s2;
          fp = (if has_frac then takeWhile is_digit (tl s2) else []);
          s3 = (if has_frac then drop (Suc (length fp)) s2 else s2);
          has_exp = (starts_with ''e'' s3 \<or> starts_with ''E'' s3);
          s4 = (if has_exp then tl s3 else s3);
          eneg = (has_exp \<and> starts_with ''-'' s4);
          s5 = (if has_exp \<and> (starts_with ''-'' s4 \<or> starts_with ''+'' s4) then tl s4 else s4);
          ep = (if has_exp then takeWhile is_digit s5 else []);
          s6 = drop (length ep) s5;
          m = of_nat (nat_of_digits (ip @ fp)) / 10 ^ length fp;
          x = (if eneg then m / 10 ^ nat_of_digits ep else m * 10 ^ nat_of_digits ep)
      in if ip = [] \<or> (has_frac \<and> fp = []) \<or> (has_exp \<and> ep = []) then None
         else Some (if neg then - x else x, s6))"

text \<open>
  The first argument bounds the depth of the calls. A chain of calls makes at most two
  calls for a character it consumes, so a depth of \<open>fuel s\<close>, twice the length of \<open>s\<close>
  and two, is enough for the text \<open>s\<close> (\<open>JSON_parse_any_fuel\<close> below).
\<close>

fun fuel :: "string \<Rightarrow> nat" where
  "fuel [] = Suc (Suc 0)"
| "fuel (c # cs) = Suc (Suc (fuel cs))"

fun parse_value :: "nat \<Rightarrow> string \<Rightarrow> (json \<times> string) option"
  and parse_elements :: "nat \<Rightarrow> json list \<Rightarrow> string \<Rightarrow> (json \<times> string) option"
  and parse_members :: "nat \<Rightarrow> (string \<times> json) list \<Rightarrow> string \<Rightarrow> (json \<times> string) option"
where
  "parse_value 0 s = None"
| "parse_value (Suc n) s =
     (case dropWhile is_json_ws s of
        [] \<Rightarrow> None
      | c # cs \<Rightarrow>
          if c = CHR ''{'' then
            (if starts_with ''}'' (dropWhile is_json_ws cs)
             then Some (JObject [], tl (dropWhile is_json_ws cs))
             else parse_members n [] cs)
          else if c = CHR ''['' then
            (if starts_with '']'' (dropWhile is_json_ws cs)
             then Some (JArray [], tl (dropWhile is_json_ws cs))
             else parse_elements n [] cs)
          else if c = CHR 0x22 then map_option (apfst JString) (parse_chars cs)
          else if starts_with ''true'' (c # cs) then Some (JBool True, drop 3 cs)
          else if starts_with ''false'' (c # cs) then Some (JBool False, drop 4 cs)
          else if starts_with ''null'' (c # cs) then Some (JNull, drop 3 cs)
          else map_option (apfst JNumber) (parse_number (c # cs)))"
| "parse_elements 0 acc s = None"
| "parse_elements (Suc n) acc s =
     (case parse_value n s of
        None \<Rightarrow> None
      | Some (v, r) \<Rightarrow>
          (case dropWhile is_json_ws r of
             [] \<Rightarrow> None
           | d # r' \<Rightarrow>
               if d = CHR '','' then parse_elements n (acc @ [v]) r'
               else if d = CHR '']'' then Some (JArray (acc @ [v]), r')
               else None))"
| "parse_members 0 acc s = None"
| "parse_members (Suc n) acc s =
     (case dropWhile is_json_ws s of
        [] \<Rightarrow> None
      | q # s1 \<Rightarrow>
          if q \<noteq> CHR 0x22 then None
          else
            (case parse_chars s1 of
               None \<Rightarrow> None
             | Some (k, s2) \<Rightarrow>
                 (case dropWhile is_json_ws s2 of
                    [] \<Rightarrow> None
                  | col # s3 \<Rightarrow>
                      if col \<noteq> CHR '':'' then None
                      else
                        (case parse_value n s3 of
                           None \<Rightarrow> None
                         | Some (v, r) \<Rightarrow>
                             (case dropWhile is_json_ws r of
                                [] \<Rightarrow> None
                              | d # r' \<Rightarrow>
                                  if d = CHR '','' then parse_members n (obj_set k v acc) r'
                                  else if d = CHR ''}'' then Some (JObject (obj_set k v acc), r')
                                  else None)))))"

definition JSON_parse :: "string \<Rightarrow> json option" where
  "JSON_parse s =
     (case parse_value (fuel s) s of
        None \<Rightarrow> None
      | Some (v, r) \<Rightarrow> if dropWhile is_json_ws r = [] then Some v else None)"

subsection \<open>Truthiness, property access, enumeration\<close>

definition truthy :: "json option \<Rightarrow> bool" where
  "truthy x =
     (case x of
        None \<Rightarrow> False
      | Some JNull \<Rightarrow> False
      | Some (JBool b) \<Rightarrow> b
      | Some (JNumber r) \<Rightarrow> r \<noteq> 0
      | Some (JString s) \<Rightarrow> s \<noteq> []
      | Some (JArray xs) \<Rightarrow> True
      | Some (JObject kvs) \<Rightarrow> True)"

text \<open>
  \<^verbatim>\<open>x.k\<close> on a value that is not \<open>null\<close> or \<open>undefined\<close>, for the property names the
  handlers read (none of them is a property of an array, a string, a number or a boolean).
\<close>

definition member :: "json \<Rightarrow> string \<Rightarrow> json option" where
  "member x k = (case x of JObject kvs \<Rightarrow> map_of kvs k | _ \<Rightarrow> None)"

definition typeof_object :: "json \<Rightarrow> bool" where
  "typeof_object x = (case x of JNull \<Rightarrow> True | JArray xs \<Rightarrow> True | JObject kvs \<Rightarrow> True | _ \<Rightarrow> False)"

fun index_entries :: "nat \<Rightarrow> json list \<Rightarrow> (string \<times> json) list" where
  "index_entries i [] = []"
| "index_entries i (x # xs) = (toString i, x) # index_entries (Suc i) xs"

text \<open>
  \<^verbatim>\<open>Object.entries(x)\<close>, which is also what the spread \<^verbatim>\<open>{...x}\<close> copies: the
  properties of an object, the elements of an array under their indices, the characters
  of a string under theirs, nothing for a number or a boolean.
\<close>

definition Object_entries :: "json \<Rightarrow> (string \<times> json) list" where
  "Object_entries x =
     (case x of
        JObject kvs \<Rightarrow> kvs
      | JArray xs \<Rightarrow> index_entries 0 xs
      | JString s \<Rightarrow> index_entries 0 (map (\<lambda>c. JString [c]) s)
      | _ \<Rightarrow> [])"

definition Object_keys :: "json \<Rightarrow> string list" where
  "Object_keys x = map fst (Object_entries x)"

definition spread :: "json option \<Rightarrow> (string \<times> json) list" where
  "spread x = (case x of None \<Rightarrow> [] | Some y \<Rightarrow> Object_entries y)"

text \<open>\<^verbatim>\<open>xs[i]\<close>: \<open>undefined\<close> out of range.\<close>

definition at_index :: "'a list \<Rightarrow> nat \<Rightarrow> 'a option" where
  "at_index xs i = (if i < length xs then Some (xs ! i) else None)"

text \<open>
  Whether the conversion of a value to a string, in a template literal or by
  \<^verbatim>\<open>Array.prototype.join\<close>, returns. An object with an own property \<^verbatim>\<open>toString\<close>, which
  in a JSON value is never a function, has no primitive value: its conversion throws a
  \<^verbatim>\<open>TypeError\<close>. An array converts its elements. \<open>undefined\<close> and \<open>null\<close> convert.
\<close>

fun convertible :: "json \<Rightarrow> bool" where
  "convertible (JArray xs) = list_all convertible xs"
| "convertible (JObject kvs) = (map_of kvs ''toString'' = None)"
| "convertible x = True"

definition convertible_opt :: "json option \<Rightarrow> bool" where
  "convertible_opt x = (case x of None \<Rightarrow> True | Some y \<Rightarrow> convertible y)"

text \<open>\<^verbatim>\<open>xs.slice(0, count)\<close> for an integer \<open>count\<close>: a negative one counts from the end.\<close>

definition slice0 :: "int \<Rightarrow> 'a list \<Rightarrow> 'a list" where
  "slice0 count xs =
     (if count < 0 then take (nat (int (length xs) + count)) xs else take (nat count) xs)"

section \<open>Requests and responses\<close>

text \<open>
  The Gateway is outside the program: what \<^verbatim>\<open>await model.generateContent(prompt)\<close> and
  \<^verbatim>\<open>result.response.text()\<close> do in a request is an input of its handler, either a failure
  or the text of the reply. No handler calls it twice. The prompt only flows to the
  Gateway, so its text is not built: a handler only tests whether building it throws,
  which it does when a value in it has no conversion to a string. A request is handled at one instant \<open>now\<close>, the value of
  \<^verbatim>\<open>Date.now()\<close>.
\<close>

datatype gateway = Fails | Replies string

text \<open>
  A response body is a JSON value; or \<^verbatim>\<open>{error, details: error.message}\<close> of a caught
  exception (further diagnostic fields are left out); or the report of a successful
  equipment selection, whose fields are all derived from the analysis.
\<close>

datatype body = Json json | ErrorBody string "js_error option" | EquipmentReport json

record 's reply =
  st :: 's
  status :: nat
  body :: body
  calls :: nat

definition error_body :: "string \<Rightarrow> body" where
  "error_body e = Json (JObject [(''error'', JString e)])"

type_synonym 'a sessions = "string \<rightharpoonup> 'a"

text \<open>
  \<^verbatim>\<open>sessions.get(sessionId)\<close>: the keys of the store are strings, so only a string finds
  a session.
\<close>

definition session_get :: "'a sessions \<Rightarrow> json option \<Rightarrow> (string \<times> 'a) option" where
  "session_get sessions sessionId =
     (case sessionId of
        Some (JString k) \<Rightarrow> (case sessions k of Some s \<Rightarrow> Some (k, s) | None \<Rightarrow> None)
      | _ \<Rightarrow> None)"

section \<open>The interview workflow (server.js)\<close>

record interview_session =
  jobRole :: "json option"
  difficulty :: "json option"
  interviewType :: "json option"
  numQuestions :: "json option"
  questions :: "string list"
  answers :: "json option list"
  feedbacks :: "json list"

definition start_interview ::
  "nat \<Rightarrow> json option \<Rightarrow> json option \<Rightarrow> json option \<Rightarrow> json option
    \<Rightarrow> interview_session sessions \<Rightarrow> interview_session sessions reply" where
  "start_interview now role level kind n sessions =
     \<lparr>st = sessions(toString now \<mapsto>
            \<lparr>jobRole = role, difficulty = level, interviewType = kind, numQuestions = n,
             questions = [], answers = [], feedbacks = []\<rparr>),
      status = 200,
      body = Json (JObject [(''sessionId'', JString (toString now))]),
      calls = 0\<rparr>"

definition question ::
  "gateway \<Rightarrow> json option \<Rightarrow> interview_session sessions \<Rightarrow> interview_session sessions reply" where
  "question gw sessionId sessions =
     (case session_get sessions sessionId of
        None \<Rightarrow> \<lparr>st = sessions, status = 404, body = error_body ''Session not found'', calls = 0\<rparr>
      | Some (k, session) \<Rightarrow>
          if \<not> (convertible_opt (jobRole session) \<and> convertible_opt (numQuestions session)
                \<and> convertible_opt (difficulty session) \<and> convertible_opt (interviewType session))
          then
            \<lparr>st = sessions, status = 500,
             body = ErrorBody ''Failed to generate question'' (Some TypeError), calls = 0\<rparr>
          else
            (case gw of
               Fails \<Rightarrow>
                 \<lparr>st = sessions, status = 500,
                  body = ErrorBody ''Failed to generate question'' (Some GatewayError), calls = 1\<rparr>
             | Replies text \<Rightarrow>
                 \<lparr>st = sessions(k \<mapsto> session\<lparr>questions := questions session @ [text]\<rparr>),
                  status = 200, body = Json (JObject [(''question'', JString text)]), calls = 1\<rparr>))"

definition feedback ::
  "gateway \<Rightarrow> json option \<Rightarrow> json option \<Rightarrow> interview_session sessions
    \<Rightarrow> interview_session sessions reply" where
  "feedback gw sessionId answer sessions =
     (case session_get sessions sessionId of
        None \<Rightarrow> \<lparr>st = sessions, status = 404, body = error_body ''Session not found'', calls = 0\<rparr>
      | Some (k, session) \<Rightarrow>
          (let answered = session\<lparr>answers := answers session @ [answer]\<rparr> in
           if \<not> convertible_opt answer then
             \<lparr>st = sessions(k \<mapsto> answered), status = 500,
              body = ErrorBody ''Failed to generate feedback'' (Some TypeError), calls = 0\<rparr>
           else
           case gw of
             Fails \<Rightarrow>
               \<lparr>st = sessions(k \<mapsto> answered), status = 500,
                body = ErrorBody ''Failed to generate feedback'' (Some GatewayError), calls = 1\<rparr>
           | Replies text \<Rightarrow>
               (case JSON_parse (trim (replace_fences text)) of
                  None \<Rightarrow>
                    \<lparr>st = sessions(k \<mapsto> answered), status = 500,
                     body = ErrorBody ''Failed to generate feedback'' (Some SyntaxError), calls = 1\<rparr>
                | Some fb \<Rightarrow>
                    \<lparr>st = sessions(k \<mapsto> answered\<lparr>feedbacks := feedbacks answered @ [fb]\<rparr>),
                     status = 200, body = Json (JObject [(''feedback'', fb)]), calls = 1\<rparr>)))"

text \<open>
  Whether \<open>interviewDetails\<close> can be built: for every question, the answer and the feedback
  at its index convert to a string.
\<close>

definition details_convertible :: "interview_session \<Rightarrow> bool" where
  "details_convertible session =
     list_all
       (\<lambda>i. (case at_index (answers session) i of None \<Rightarrow> True | Some a \<Rightarrow> convertible_opt a)
            \<and> convertible_opt (at_index (feedbacks session) i))
       [0 ..< length (questions session)]"

definition interview_summary ::
  "gateway \<Rightarrow> string \<Rightarrow> interview_session sessions \<Rightarrow> interview_session sessions reply" where
  "interview_summary gw sessionId sessions =
     (case session_get sessions (Some (JString sessionId)) of
        None \<Rightarrow> \<lparr>st = sessions, status = 404, body = error_body ''Session not found'', calls = 0\<rparr>
      | Some (k, session) \<Rightarrow>
          if \<not> details_convertible session then
            \<lparr>st = sessions, status = 500,
             body = ErrorBody ''Failed to generate interview summary'' (Some TypeError),
             calls = 0\<rparr>
          else
          (case gw of
             Fails \<Rightarrow>
               \<lparr>st = sessions, status = 500,
                body = ErrorBody ''Failed to generate interview summary'' (Some GatewayError),
                calls = 1\<rparr>
           | Replies text \<Rightarrow>
               (case JSON_parse (trim (replace_fences text)) of
                  None \<Rightarrow>
                    \<lparr>st = sessions, status = 500,
                     body = ErrorBody ''Failed to generate interview summary'' (Some SyntaxError),
                     calls = 1\<rparr>
                | Some summary \<Rightarrow>
                    \<lparr>st = sessions, status = 200, body = Json (JObject [(''summary'', summary)]),
                     calls = 1\<rparr>)))"

section \<open>The cache (node-cache with stdTTL 3600)\<close>

text \<open>
  An entry holds its value and the instant, in milliseconds, after which it has expired.
  \<open>get\<close> misses on an expired entry and evicts it; \<open>set\<close> gives the entry the standard
  time to live.
\<close>

record 'v cache_entry =
  cached :: 'v
  expires :: nat

type_synonym 'v NodeCache = "string \<rightharpoonup> 'v cache_entry"

definition stdTTL :: nat where
  "stdTTL = 3600"

definition cache_get :: "nat \<Rightarrow> string \<Rightarrow> 'v NodeCache \<Rightarrow> 'v option \<times> 'v NodeCache" where
  "cache_get now key cache =
     (case cache key of
        None \<Rightarrow> (None, cache)
      | Some e \<Rightarrow> if expires e < now then (None, cache(key := None)) else (Some (cached e), cache))"

definition cache_set :: "nat \<Rightarrow> string \<Rightarrow> 'v \<Rightarrow> 'v NodeCache \<Rightarrow> 'v NodeCache" where
  "cache_set now key x cache = cache(key \<mapsto> \<lparr>cached = x, expires = now + stdTTL * 1000\<rparr>)"

section \<open>The quiz workflow (routes/gmpQuizRoutes)\<close>

text \<open>\<^verbatim>\<open>questionCache.get(cacheKey) || []\<close>\<close>

definition cached_questions :: "nat \<Rightarrow> string \<Rightarrow> json list NodeCache \<Rightarrow> json list" where
  "cached_questions now key cache =
     (case fst (cache_get now key cache) of Some qs \<Rightarrow> qs | None \<Rightarrow> [])"

text \<open>
  The \<^verbatim>\<open>try\<close> block of \<open>pregenerateQuestions\<close> up to \<open>newQuestions\<close>: the Gateway call,
  the match of \<^verbatim>\<open>/\[.*\]/s\<close> in the trimmed reply, the parse of the match, the test that
  it is an array. \<open>None\<close> is an exception, which the \<^verbatim>\<open>catch\<close> turns into an empty result.
\<close>

definition generate_array :: "gateway \<Rightarrow> json list option" where
  "generate_array gw =
     (case gw of
        Fails \<Rightarrow> None
      | Replies text \<Rightarrow>
          (case match_span CHR ''['' CHR '']'' (trim text) of
             None \<Rightarrow> None
           | Some jsonString \<Rightarrow>
               (case JSON_parse jsonString of
                  Some (JArray newQuestions) \<Rightarrow> Some newQuestions
                | _ \<Rightarrow> None)))"

text \<open>
  \<open>difficulty\<close> and \<open>category\<close> are strings and \<open>count\<close> is an integer here (the
  conversions of JavaScript for other request values are not modelled). The result is
  the questions returned, the cache, and the number of Gateway calls made.
\<close>

definition pregenerateQuestions ::
  "nat \<Rightarrow> gateway \<Rightarrow> string \<Rightarrow> string \<Rightarrow> int \<Rightarrow> json list NodeCache
    \<Rightarrow> json list \<times> json list NodeCache \<times> nat" where
  "pregenerateQuestions now gw level topic count cache =
     (let cacheKey = level @ ''-'' @ topic;
          questions = cached_questions now cacheKey cache;
          cache1 = snd (cache_get now cacheKey cache)
      in if int (length questions) < count then
           (case generate_array gw of
              None \<Rightarrow> ([], cache1, 1)
            | Some newQuestions \<Rightarrow>
                (slice0 count (questions @ newQuestions),
                 cache_set now cacheKey (questions @ newQuestions) cache1, 1))
         else (slice0 count questions, cache1, 0))"

record quiz_session =
  quiz_questions :: "json list"
  currentQuestionIndex :: nat
  numberOfQuestions :: nat
  quiz_difficulty :: string
  category :: string

record quiz_state =
  questionCache :: "json list NodeCache"
  quizSessions :: "quiz_session sessions"

definition start_quiz ::
  "nat \<Rightarrow> gateway \<Rightarrow> int \<Rightarrow> string \<Rightarrow> string \<Rightarrow> quiz_state \<Rightarrow> quiz_state reply" where
  "start_quiz now gw n level topic S =
     (let sessionId = toString now;
          pre = pregenerateQuestions now gw level topic n (questionCache S);
          questions = fst pre
      in if length questions = 0 then
           \<lparr>st = S\<lparr>questionCache := fst (snd pre)\<rparr>, status = 500,
            body = error_body ''Failed to generate questions. Please try again.'',
            calls = snd (snd pre)\<rparr>
         else
           \<lparr>st = \<lparr>questionCache = fst (snd pre),
                  quizSessions = (quizSessions S)(sessionId \<mapsto>
                    \<lparr>quiz_questions = questions, currentQuestionIndex = 0,
                     numberOfQuestions = length questions, quiz_difficulty = level,
                     category = topic\<rparr>)\<rparr>,
            status = 200, body = Json (JObject [(''sessionId'', JString sessionId)]),
            calls = snd (snd pre)\<rparr>)"

definition generate_question :: "json option \<Rightarrow> quiz_state \<Rightarrow> quiz_state reply" where
  "generate_question sessionId S =
     (case session_get (quizSessions S) sessionId of
        None \<Rightarrow> \<lparr>st = S, status = 404, body = error_body ''Session not found.'', calls = 0\<rparr>
      | Some (k, session) \<Rightarrow>
          if currentQuestionIndex session \<ge> numberOfQuestions session then
            \<lparr>st = S, status = 200, body = Json (JObject [(''quizCompleted'', JBool True)]),
             calls = 0\<rparr>
          else
            (let questionData = at_index (quiz_questions session) (currentQuestionIndex session);
                 session' = session\<lparr>currentQuestionIndex := currentQuestionIndex session + 1\<rparr>
             in \<lparr>st = S\<lparr>quizSessions := (quizSessions S)(k \<mapsto> session')\<rparr>, status = 200,
                 body = Json (JObject (obj_set ''questionIndex''
                          (JNumber (of_nat (currentQuestionIndex session' - 1)))
                          (spread questionData))),
                 calls = 0\<rparr>))"

definition complete_quiz :: "gateway \<Rightarrow> json option \<Rightarrow> quiz_state \<Rightarrow> quiz_state reply" where
  "complete_quiz gw sessionId S =
     (case session_get (quizSessions S) sessionId of
        None \<Rightarrow> \<lparr>st = S, status = 404, body = error_body ''Session not found.'', calls = 0\<rparr>
      | Some (k, session) \<Rightarrow>
          (case gw of
             Fails \<Rightarrow> \<lparr>st = S, status = 500, body = error_body ''Failed to complete quiz.'', calls = 1\<rparr>
           | Replies feedbackMessage \<Rightarrow>
               \<lparr>st = S\<lparr>quizSessions := (quizSessions S)(k := None)\<rparr>, status = 200,
                body = Json (JObject [(''message'', JString feedbackMessage)]), calls = 1\<rparr>))"

text \<open>Successive \<^verbatim>\<open>/generate-question\<close> requests of one client, and their responses.\<close>

fun generate_questions :: "nat \<Rightarrow> json option \<Rightarrow> quiz_state \<Rightarrow> quiz_state reply list" where
  "generate_questions 0 sessionId S = []"
| "generate_questions (Suc n) sessionId S =
     generate_question sessionId S # generate_questions n sessionId (st (generate_question sessionId S))"

section \<open>Process optimization (routes/processOptimizationRoutes)\<close>

definition extractJSONFromResponse :: "string \<Rightarrow> js_error + json" where
  "extractJSONFromResponse content =
     (case JSON_parse content of
        Some x \<Rightarrow> Inr x
      | None \<Rightarrow>
          (case match_fenced content of
             Some m \<Rightarrow> (case JSON_parse m of Some x \<Rightarrow> Inr x | None \<Rightarrow> Inl SyntaxError)
           | None \<Rightarrow>
               (case match_span CHR ''{'' CHR ''}'' content of
                  Some m \<Rightarrow> (case JSON_parse m of Some x \<Rightarrow> Inr x | None \<Rightarrow> Inl SyntaxError)
                | None \<Rightarrow> Inl (Error ''No valid JSON found in response''))))"

text \<open>
  The temperature key is spelled as the source file spells it: its degree sign is the four
  bytes C3 82 C2 B0.
\<close>

definition temperature_key :: string where
  "temperature_key = ''Temperature ('' @ [CHR 0xC3, CHR 0x82, CHR 0xC2, CHR 0xB0] @ ''C)''"

definition parameterLimits :: "(string \<times> nat \<times> nat) list" where
  "parameterLimits =
     [(temperature_key, 0, 150),
      (''Pressure (bar)'', 0, 10),
      (''Time (h)'', 0, 24),
      (''Speed (rpm)'', 0, 5000),
      (''Flow Rate (mL/min)'', 0, 100)]"

definition bad_request :: "string \<Rightarrow> string \<Rightarrow> nat \<times> body" where
  "bad_request e d = (400, Json (JObject [(''error'', JString e), (''details'', JString d)]))"

text \<open>The inner loop of the validation, over the parameters of one step.\<close>

fun check_parameters :: "string \<Rightarrow> (string \<times> json) list \<Rightarrow> (nat \<times> body) option" where
  "check_parameters step [] = None"
| "check_parameters step (p # rest) =
     (case snd p of
        JNumber x \<Rightarrow>
          (case map_of parameterLimits (fst p) of
             Some (lo, hi) \<Rightarrow>
               if x < of_nat lo \<or> x > of_nat hi then
                 Some (bad_request (''Parameter value out of range: '' @ fst p @ '' in step: '' @ step)
                        (''Value must be between '' @ toString lo @ '' and '' @ toString hi))
               else check_parameters step rest
           | None \<Rightarrow> check_parameters step rest)
      | _ \<Rightarrow>
          Some (bad_request (''Invalid value for parameter: '' @ fst p @ '' in step: '' @ step)
                 ''Parameter values must be numbers''))"

text \<open>The outer loop, over the steps.\<close>

fun check_steps :: "(string \<times> json) list \<Rightarrow> (nat \<times> body) option" where
  "check_steps [] = None"
| "check_steps (p # rest) =
     (if \<not> truthy (Some (snd p)) \<or> \<not> typeof_object (snd p) then
        Some (bad_request (''Invalid parameters for step: '' @ fst p)
               ''Parameters must be an object with numeric values'')
      else
        (case check_parameters (fst p) (Object_entries (snd p)) of
           Some r \<Rightarrow> Some r
         | None \<Rightarrow> check_steps rest))"

text \<open>
  The middleware answers the request itself (\<open>Inl\<close>) or calls \<^verbatim>\<open>next()\<close> (\<open>Inr\<close>, with the
  process steps it has let through).
\<close>

definition validateProcessSteps :: "json option \<Rightarrow> (nat \<times> body) + json" where
  "validateProcessSteps processSteps =
     (case processSteps of
        None \<Rightarrow>
          Inl (bad_request ''Invalid process steps provided''
                ''Process steps object is empty or undefined'')
      | Some steps \<Rightarrow>
          if \<not> truthy (Some steps) \<or> length (Object_keys steps) = 0 then
            Inl (bad_request ''Invalid process steps provided''
                  ''Process steps object is empty or undefined'')
          else
            (case check_steps (Object_entries steps) of
               Some r \<Rightarrow> Inl r
             | None \<Rightarrow> Inr steps))"

text \<open>The parsing and the validation of the reply, inside the inner \<^verbatim>\<open>try\<close> of the handler.\<close>

definition parse_optimization :: "string \<Rightarrow> js_error + json" where
  "parse_optimization content =
     (case extractJSONFromResponse content of
        Inl e \<Rightarrow> Inl e
      | Inr optimizationResponse \<Rightarrow>
          if optimizationResponse = JNull then Inl TypeError
          else if \<not> truthy (member optimizationResponse ''optimizations'')
                  \<or> \<not> truthy (member optimizationResponse ''summary'')
          then Inl (Error ''Invalid response structure from AI model'')
          else Inr optimizationResponse)"

text \<open>\<^verbatim>\<open>{...cachedResult, fromCache: true}\<close>\<close>

definition from_cache :: "json option \<Rightarrow> json" where
  "from_cache cachedResult = JObject (obj_set ''fromCache'' (JBool True) (spread cachedResult))"

text \<open>
  \<^verbatim>\<open>JSON.stringify\<close> is the parameter \<open>stringify\<close>, and \<open>timestamp\<close> is the value of
  \<^verbatim>\<open>new Date().toISOString()\<close> in the request.
\<close>

definition optimize_handler ::
  "nat \<Rightarrow> string \<Rightarrow> gateway \<Rightarrow> (json \<Rightarrow> string) \<Rightarrow> json \<Rightarrow> json NodeCache \<Rightarrow> json NodeCache reply" where
  "optimize_handler now timestamp gw stringify processSteps cache =
     (let cacheKey = stringify processSteps;
          got = cache_get now cacheKey cache;
          cachedResult = fst got;
          cache1 = snd got
      in if truthy cachedResult then
           \<lparr>st = cache1, status = 200, body = Json (from_cache cachedResult), calls = 0\<rparr>
         else
           (case gw of
              Fails \<Rightarrow>
                \<lparr>st = cache1, status = 500,
                 body = ErrorBody ''Failed to optimize process'' (Some GatewayError), calls = 1\<rparr>
            | Replies content \<Rightarrow>
                (case parse_optimization content of
                   Inl e \<Rightarrow>
                     \<lparr>st = cache1, status = 500,
                      body = ErrorBody ''Failed to parse optimization response'' (Some e),
                      calls = 1\<rparr>
                 | Inr optimizationResponse \<Rightarrow>
                     (let response = JObject (obj_set ''metadata''
                            (JObject [(''timestamp'', JString timestamp),
                                      (''processStepsHash'', JString cacheKey),
                                      (''version'', JString ''1.0'')])
                            (spread (Some optimizationResponse)))
                      in \<lparr>st = cache_set now cacheKey response cache1, status = 200,
                          body = Json response, calls = 1\<rparr>))))"

definition optimize ::
  "nat \<Rightarrow> string \<Rightarrow> gateway \<Rightarrow> (json \<Rightarrow> string) \<Rightarrow> json option \<Rightarrow> json NodeCache
    \<Rightarrow> json NodeCache reply" where
  "optimize now timestamp gw stringify processSteps cache =
     (case validateProcessSteps processSteps of
        Inl r \<Rightarrow> \<lparr>st = cache, status = fst r, body = snd r, calls = 0\<rparr>
      | Inr steps \<Rightarrow> optimize_handler now timestamp gw stringify steps cache)"

section \<open>The lab workflow (routes/virtualLabSimulatorRoute)\<close>

text \<open>
  \<open>callGoogleAI\<close> turns every failure, of the Gateway or of the parsing, into one error.
\<close>

definition callGoogleAI :: "gateway \<Rightarrow> js_error + json" where
  "callGoogleAI gw =
     (case gw of
        Fails \<Rightarrow> Inl (Error ''Failed to generate AI response'')
      | Replies responseText \<Rightarrow>
          (case JSON_parse (trim (replace_fences responseText)) of
             None \<Rightarrow> Inl (Error ''Failed to generate AI response'')
           | Some parsedResponse \<Rightarrow> Inr parsedResponse))"

text \<open>
  The entries of \<open>actions\<close> are strings in the source; here an entry says which of the
  three pushes made it: \<^verbatim>\<open>`Selected equipment: ${selectedEquipment.join(", ")}`\<close>,
  \<^verbatim>\<open>`Completed step ${session.currentStep}`\<close>, or the \<open>action\<close> of a request as it came.
\<close>

datatype action = SelectedEquipment "json list" | CompletedStep nat | Performed "json option"

text \<open>Whether an entry of \<open>actions\<close> converts to a string in \<^verbatim>\<open>session.actions.join\<close>.\<close>

definition action_convertible :: "action \<Rightarrow> bool" where
  "action_convertible a = (case a of Performed x \<Rightarrow> convertible_opt x | _ \<Rightarrow> True)"

record lab_session =
  experimentName :: "json option"
  currentStep :: nat
  actions :: "action list"
  equipmentSelected :: bool
  experimentData :: json
  equipmentAnalysis :: "json option"

definition start_experiment ::
  "nat \<Rightarrow> gateway \<Rightarrow> json option \<Rightarrow> lab_session sessions \<Rightarrow> lab_session sessions reply" where
  "start_experiment now gw name sessions =
     (if \<not> convertible_opt name then
        \<lparr>st = sessions, status = 500, body = error_body ''Failed to start experiment.'', calls = 0\<rparr>
      else
      case callGoogleAI gw of
        Inl e \<Rightarrow>
          \<lparr>st = sessions, status = 500, body = error_body ''Failed to start experiment.'', calls = 1\<rparr>
      | Inr structuredIntroduction \<Rightarrow>
          \<lparr>st = sessions(toString now \<mapsto>
                 \<lparr>experimentName = name, currentStep = 0, actions = [],
                  equipmentSelected = False, experimentData = structuredIntroduction,
                  equipmentAnalysis = None\<rparr>),
           status = 200,
           body = Json (JObject [(''sessionId'', JString (toString now)),
                                 (''introduction'', structuredIntroduction)]),
           calls = 1\<rparr>)"

text \<open>
  Whether \<^verbatim>\<open>xs.map((e) => ...${e.name}...)\<close> is reached and throws: \<open>xs\<close> is an array with
  an element that is \<open>null\<close> or whose \<open>name\<close> does not convert to a string.
\<close>

definition names_throw :: "json option \<Rightarrow> bool" where
  "names_throw xs =
     (case xs of
        Some (JArray es) \<Rightarrow>
          \<not> list_all (\<lambda>e. e \<noteq> JNull \<and> convertible_opt (member e ''name'')) es
      | _ \<Rightarrow> False)"

text \<open>
  Whether building the response of \<^verbatim>\<open>/select-equipment\<close> throws a \<^verbatim>\<open>TypeError\<close>:
  \<^verbatim>\<open>analysis.equipmentAnalysis\<close> is missing or \<open>null\<close>, or a name cannot be read or
  converted.
\<close>

definition report_throws :: "json \<Rightarrow> bool" where
  "report_throws analysis =
     (case member analysis ''equipmentAnalysis'' of
        None \<Rightarrow> True
      | Some ea \<Rightarrow>
          if ea = JNull then True
          else names_throw (member ea ''missingCriticalEquipment'')
             \<or> (case member ea ''selectedEquipment'' of
                   None \<Rightarrow> False
                 | Some se \<Rightarrow> if se = JNull then False else names_throw (member se ''unsuitable'')))"

definition select_equipment ::
  "gateway \<Rightarrow> json option \<Rightarrow> json option \<Rightarrow> lab_session sessions \<Rightarrow> lab_session sessions reply" where
  "select_equipment gw sessionId selectedEquipment sessions =
     (case session_get sessions sessionId of
        None \<Rightarrow> \<lparr>st = sessions, status = 404, body = error_body ''Session not found.'', calls = 0\<rparr>
      | Some (k, session) \<Rightarrow>
          (let s1 = session\<lparr>equipmentSelected := True\<rparr> in
           case selectedEquipment of
             Some (JArray items) \<Rightarrow>
               if \<not> convertible (JArray items) then
                 \<lparr>st = sessions(k \<mapsto> s1), status = 500,
                  body = ErrorBody ''Failed to process equipment selection.'' (Some TypeError),
                  calls = 0\<rparr>
               else
               (let s2 = s1\<lparr>actions := actions s1 @ [SelectedEquipment items]\<rparr> in
                if \<not> convertible_opt (experimentName session) then
                  \<lparr>st = sessions(k \<mapsto> s2), status = 500,
                   body = ErrorBody ''Failed to process equipment selection.'' (Some TypeError),
                   calls = 0\<rparr>
                else
                case callGoogleAI gw of
                  Inl e \<Rightarrow>
                    \<lparr>st = sessions(k \<mapsto> s2), status = 500,
                     body = ErrorBody ''Failed to process equipment selection.'' (Some e),
                     calls = 1\<rparr>
                | Inr analysis \<Rightarrow>
                    (let s3 = s2\<lparr>equipmentAnalysis := Some analysis\<rparr> in
                     if report_throws analysis then
                       \<lparr>st = sessions(k \<mapsto> s3), status = 500,
                        body = ErrorBody ''Failed to process equipment selection.'' (Some TypeError),
                        calls = 1\<rparr>
                     else
                       \<lparr>st = sessions(k \<mapsto> s3), status = 200, body = EquipmentReport analysis,
                        calls = 1\<rparr>))
           | _ \<Rightarrow>
               \<lparr>st = sessions(k \<mapsto> s1), status = 500,
                body = ErrorBody ''Failed to process equipment selection.'' (Some TypeError),
                calls = 0\<rparr>))"

definition next_step ::
  "gateway \<Rightarrow> json option \<Rightarrow> lab_session sessions \<Rightarrow> lab_session sessions reply" where
  "next_step gw sessionId sessions =
     (case session_get sessions sessionId of
        None \<Rightarrow> \<lparr>st = sessions, status = 404, body = error_body ''Session not found.'', calls = 0\<rparr>
      | Some (k, session) \<Rightarrow>
          if \<not> equipmentSelected session then
            \<lparr>st = sessions, status = 400,
             body = error_body ''Equipment must be selected before proceeding.'', calls = 0\<rparr>
          else
            (let s1 = session\<lparr>currentStep := currentStep session + 1\<rparr> in
             if \<not> (convertible_opt (experimentName session)
                   \<and> list_all action_convertible (actions session))
             then
               \<lparr>st = sessions(k \<mapsto> s1), status = 500,
                body = error_body ''Failed to generate next step.'', calls = 0\<rparr>
             else
             case callGoogleAI gw of
               Inl e \<Rightarrow>
                 \<lparr>st = sessions(k \<mapsto> s1), status = 500,
                  body = error_body ''Failed to generate next step.'', calls = 1\<rparr>
             | Inr instructions \<Rightarrow>
                 \<lparr>st = sessions(k \<mapsto> s1\<lparr>actions := actions s1 @ [CompletedStep (currentStep s1)]\<rparr>),
                  status = 200,
                  body = Json (JObject [(''step'', JNumber (of_nat (currentStep s1))),
                                        (''instructions'', instructions)]),
                  calls = 1\<rparr>))"

definition perform_action ::
  "gateway \<Rightarrow> json option \<Rightarrow> json option \<Rightarrow> lab_session sessions \<Rightarrow> lab_session sessions reply" where
  "perform_action gw sessionId act sessions =
     (case session_get sessions sessionId of
        None \<Rightarrow> \<lparr>st = sessions, status = 404, body = error_body ''Session not found.'', calls = 0\<rparr>
      | Some (k, session) \<Rightarrow>
          (let s1 = session\<lparr>actions := actions session @ [Performed act]\<rparr> in
           if \<not> (convertible_opt (experimentName session) \<and> convertible_opt act) then
             \<lparr>st = sessions(k \<mapsto> s1), status = 500,
              body = error_body ''Failed to process action.'', calls = 0\<rparr>
           else
           case callGoogleAI gw of
             Inl e \<Rightarrow>
               \<lparr>st = sessions(k \<mapsto> s1), status = 500,
                body = error_body ''Failed to process action.'', calls = 1\<rparr>
           | Inr fb \<Rightarrow>
               \<lparr>st = sessions(k \<mapsto> s1), status = 200, body = Json (JObject [(''feedback'', fb)]),
                calls = 1\<rparr>))"

definition complete_experiment ::
  "gateway \<Rightarrow> json option \<Rightarrow> lab_session sessions \<Rightarrow> lab_session sessions reply" where
  "complete_experiment gw sessionId sessions =
     (case session_get sessions sessionId of
        None \<Rightarrow> \<lparr>st = sessions, status = 404, body = error_body ''Session not found.'', calls = 0\<rparr>
      | Some (k, session) \<Rightarrow>
          if \<not> convertible_opt (experimentName session) then
            \<lparr>st = sessions, status = 500, body = error_body ''Failed to complete experiment.'',
             calls = 0\<rparr>
          else
          (case callGoogleAI gw of
             Inl e \<Rightarrow>
               \<lparr>st = sessions, status = 500, body = error_body ''Failed to complete experiment.'',
                calls = 1\<rparr>
           | Inr summary \<Rightarrow>
               \<lparr>st = sessions(k := None), status = 200, body = Json (JObject [(''summary'', summary)]),
                calls = 1\<rparr>))"

section \<open>The bound on the quiz cursor\<close>

text \<open>No quiz session of the store has its cursor beyond its number of questions.\<close>

definition within_bound :: "quiz_state \<Rightarrow> bool" where
  "within_bound S =
     (\<forall>k s. quizSessions S k = Some s \<longrightarrow> currentQuestionIndex s \<le> numberOfQuestions s)"

section \<open>Example sessions\<close>

text \<open>
  States the handlers produce from empty stores, used where a property is shown at a
  concrete input.
\<close>

definition id7 :: "json option" where
  "id7 = Some (JString ''7'')"

definition lab_started :: "lab_session sessions" where
  "lab_started = st (start_experiment 7 (Replies ''{}'') (Some (JString ''Assay'')) Map.empty)"

definition lab_selected :: "lab_session sessions" where
  \<open>lab_selected =
     st (select_equipment (Replies ''{"equipmentAnalysis":{}}'') id7
           (Some (JArray [JString ''burette''])) lab_started)\<close>

definition interview_started :: "interview_session sessions" where
  "interview_started =
     st (start_interview 7 (Some (JString ''QA'')) (Some (JString ''easy''))
           (Some (JString ''technical'')) (Some (JNumber 1)) Map.empty)"

definition interview_asked :: "interview_session sessions" where
  "interview_asked = st (question (Replies ''Q1'') id7 interview_started)"

definition quiz_empty :: quiz_state where
  "quiz_empty = \<lparr>questionCache = Map.empty, quizSessions = Map.empty\<rparr>"

definition quiz_started :: quiz_state where
  "quiz_started = st (start_quiz 7 (Replies ''[{},{}]'') 2 ''easy'' ''hygiene'' quiz_empty)"

definition quiz_done :: quiz_state where
  "quiz_done = st (generate_question id7 (st (generate_question id7 quiz_started)))"

definition quiz_short :: quiz_state where
  \<open>quiz_short = st (start_quiz 7 (Replies ''[{"q":1},{"q":2}]'') 3 ''easy'' ''hygiene'' quiz_empty)\<close>

text \<open>The temperature key with the degree sign as UTF-8 encodes it, the bytes C2 B0.\<close>

definition degree_key :: string where
  "degree_key = ''Temperature ('' @ [CHR 0xC2, CHR 0xB0] @ ''C)''"

definition degree_steps :: json where
  "degree_steps = JObject [(''Mixing'', JObject [(degree_key, JNumber 200)])]"

definition hot_steps :: json where
  "hot_steps = JObject [(''Mixing'', JObject [(temperature_key, JNumber 200)])]"

definition mild_steps :: json where
  "mild_steps = JObject [(''Mixing'', JObject [(''Time (h)'', JNumber 2)])]"

text \<open>A function that agrees with \<^verbatim>\<open>JSON.stringify\<close> on \<open>mild_steps\<close>.\<close>

definition stringify_mild :: "json \<Rightarrow> string" where
  \<open>stringify_mild x = (if x = mild_steps then ''{"Mixing":{"Time (h)":2}}'' else ''null'')\<close>

text \<open>What the first optimization of \<open>mild_steps\<close> in the examples answers and caches.\<close>

definition mild_response :: json where
  \<open>mild_response =
     JObject [(''optimizations'', JObject []), (''summary'', JObject []),
       (''metadata'', JObject [(''timestamp'', JString ''t''),
          (''processStepsHash'', JString ''{"Mixing":{"Time (h)":2}}''),
          (''version'', JString ''1.0'')])]\<close>

section \<open>The depth bound of the parser\<close>

text \<open>
  Every successful call of the parser consumes a character, and beyond \<open>fuel s\<close> a larger
  bound does not change what the parser returns for \<open>s\<close>: a \<open>None\<close> of \<open>JSON_parse\<close> is a
  syntax error of the text, never an exhausted bound.
\<close>

lemma fuel_eq: "fuel s = 2 * length s + 2"
  by (induction s) auto

lemma parse_chars_shorter:
  "parse_chars s = Some (x, r) \<Longrightarrow> length r < length s"
proof (induction s arbitrary: x r rule: length_induct)
  case (1 s)
  have ih: "parse_chars ys = Some (y, q) \<Longrightarrow> length ys < length s \<Longrightarrow> length q < length s" for ys y q
    using "1.IH" by fastforce
  show ?case
  proof (cases s)
    case Nil
    with "1.prems" show ?thesis by simp
  next
    case (Cons c cs)
    with "1.prems" show ?thesis
      by (auto split: if_splits list.splits option.splits dest!: ih)
  qed
qed

lemma if_None_Some: "((if c then None else Some a) = Some b) = (\<not> c \<and> a = b)"
  by simp

lemma parse_number_shorter:
  assumes "parse_number s = Some (x, r)"
  shows "length r < length s"
proof -
  define s1 where "s1 = (if starts_with ''-'' s then tl s else s)"
  define ip where "ip = (if starts_with ''0'' s1 then ''0'' else takeWhile is_digit s1)"
  define s2 where "s2 = drop (length ip) s1"
  define fp where "fp = (if starts_with ''.'' s2 then takeWhile is_digit (tl s2) else [])"
  define s3 where "s3 = (if starts_with ''.'' s2 then drop (Suc (length fp)) s2 else s2)"
  define has_exp where "has_exp = (starts_with ''e'' s3 \<or> starts_with ''E'' s3)"
  define s4 where "s4 = (if has_exp then tl s3 else s3)"
  define s5 where
    "s5 = (if has_exp \<and> (starts_with ''-'' s4 \<or> starts_with ''+'' s4) then tl s4 else s4)"
  define ep where "ep = (if has_exp then takeWhile is_digit s5 else [])"
  have "\<exists>c y. parse_number s = (if ip = [] \<or> c then None else Some (y, drop (length ep) s5))"
    unfolding parse_number_def s1_def ip_def s2_def fp_def s3_def has_exp_def s4_def s5_def ep_def
    by (simp only: Let_def disj_assoc) blast
  with assms have res: "ip \<noteq> [] \<and> r = drop (length ep) s5"
    by (auto split: if_splits)
  have a: "length s1 \<le> length s"
    by (simp add: s1_def)
  have "length ip \<le> length s1"
    by (cases s1) (auto simp: ip_def starts_with_def length_takeWhile_le)
  with res have b: "length s2 < length s1"
    by (cases ip) (auto simp: s2_def)
  have c: "length s3 \<le> length s2"
    by (simp add: s3_def)
  have d: "length s4 \<le> length s3"
    by (simp add: s4_def)
  have e: "length s5 \<le> length s4"
    by (simp add: s5_def)
  from res have "length r \<le> length s5"
    by simp
  with a b c d e show ?thesis by linarith
qed

lemma dropWhile_Cons_shorter:
  "dropWhile P s = c # cs \<Longrightarrow> length cs < length s"
  using length_dropWhile_le [of P s] by simp

lemma parse_shorter:
  "(\<forall>s v r. parse_value n s = Some (v, r) \<longrightarrow> length r < length s)
   \<and> (\<forall>acc s v r. parse_elements n acc s = Some (v, r) \<longrightarrow> length r < length s)
   \<and> (\<forall>acc s v r. parse_members n acc s = Some (v, r) \<longrightarrow> length r < length s)"
proof (induction n)
  case 0
  show ?case by simp
next
  case (Suc n)
  have v: "length r < length s" if "parse_value (Suc n) s = Some (v, r)" for s v r
  proof (cases "dropWhile is_json_ws s")
    case Nil
    with that show ?thesis by simp
  next
    case (Cons c cs)
    note len = dropWhile_Cons_shorter [OF Cons]
    have w: "length (tl (dropWhile is_json_ws cs)) \<le> length cs"
      using length_dropWhile_le [of is_json_ws cs] by simp
    have ms: "length r < length cs" if "parse_members n [] cs = Some (v, r)"
      using that Suc by blast
    have es: "length r < length cs" if "parse_elements n [] cs = Some (v, r)"
      using that Suc by blast
    have st: "length r < length cs" if "parse_chars cs = Some (k, r)" for k
      using that by (rule parse_chars_shorter)
    have nu: "length r < Suc (length cs)" if "parse_number (c # cs) = Some (k, r)" for k
      using parse_number_shorter [OF that] by simp
    from that Cons len w show ?thesis
      by (auto split: if_splits dest: ms es st nu)
  qed
  have e: "length r < length s" if "parse_elements (Suc n) acc s = Some (v, r)" for acc s v r
  proof -
    from that obtain x q where x: "parse_value n s = Some (x, q)"
      by (auto split: option.splits)
    then have q: "length q < length s"
      using Suc by blast
    from that x obtain d r' where d: "dropWhile is_json_ws q = d # r'"
      by (auto split: list.splits)
    note dr = dropWhile_Cons_shorter [OF d]
    have rec: "length r < length r'" if "parse_elements n (acc @ [x]) r' = Some (v, r)"
      using that Suc by blast
    from that x d q dr show ?thesis
      by (auto split: if_splits dest: rec)
  qed
  have m: "length r < length s" if "parse_members (Suc n) acc s = Some (v, r)" for acc s v r
  proof -
    from that obtain q s1 where q: "dropWhile is_json_ws s = q # s1"
      by (auto split: list.splits)
    note l1 = dropWhile_Cons_shorter [OF q]
    from that q obtain k s2 where k: "parse_chars s1 = Some (k, s2)"
      by (auto split: if_splits option.splits)
    note l2 = parse_chars_shorter [OF k]
    from that q k obtain col s3 where c: "dropWhile is_json_ws s2 = col # s3"
      by (auto split: if_splits list.splits)
    note l3 = dropWhile_Cons_shorter [OF c]
    from that q k c obtain x t where x: "parse_value n s3 = Some (x, t)"
      by (auto split: if_splits option.splits)
    then have l4: "length t < length s3"
      using Suc by blast
    from that q k c x obtain d r' where d: "dropWhile is_json_ws t = d # r'"
      by (auto split: if_splits list.splits)
    note l5 = dropWhile_Cons_shorter [OF d]
    have rec: "length r < length r'" if "parse_members n (obj_set k x acc) r' = Some (v, r)"
      using that Suc by blast
    from that q k c x d l1 l2 l3 l4 l5 show ?thesis
      by (auto split: if_splits dest: rec)
  qed
  from v e m show ?case by blast
qed

lemma parse_stable:
  "(\<forall>s. 2 * length s + 1 \<le> n \<longrightarrow> parse_value (Suc n) s = parse_value n s)
   \<and> (\<forall>acc s. 2 * length s + 2 \<le> n \<longrightarrow> parse_elements (Suc n) acc s = parse_elements n acc s)
   \<and> (\<forall>acc s. 2 * length s + 2 \<le> n \<longrightarrow> parse_members (Suc n) acc s = parse_members n acc s)"
proof (induction n)
  case 0
  show ?case by simp
next
  case (Suc n)
  have v: "parse_value (Suc (Suc n)) s = parse_value (Suc n) s" if "2 * length s + 1 \<le> Suc n" for s
  proof (cases "dropWhile is_json_ws s")
    case Nil
    then show ?thesis by (simp del: dropWhile_eq_Nil_conv)
  next
    case (Cons c cs)
    from dropWhile_Cons_shorter [OF Cons] that have b: "2 * length cs + 2 \<le> n"
      by linarith
    have "parse_members (Suc n) [] cs = parse_members n [] cs"
      and "parse_elements (Suc n) [] cs = parse_elements n [] cs"
      using Suc b by blast+
    with Cons show ?thesis by simp
  qed
  have e: "parse_elements (Suc (Suc n)) acc s = parse_elements (Suc n) acc s"
    if "2 * length s + 2 \<le> Suc n" for acc s
  proof -
    from that have "2 * length s + 1 \<le> n" by simp
    with Suc have pv: "parse_value (Suc n) s = parse_value n s" by blast
    show ?thesis
    proof (cases "parse_value n s")
      case None
      with pv show ?thesis by simp
    next
      case (Some p)
      obtain x q where p: "p = (x, q)" by (cases p)
      with Some parse_shorter [of n] have q: "length q < length s" by blast
      show ?thesis
      proof (cases "dropWhile is_json_ws q")
        case Nil
        with pv Some p show ?thesis by (simp del: dropWhile_eq_Nil_conv)
      next
        case (Cons d r')
        from dropWhile_Cons_shorter [OF Cons] q that have "2 * length r' + 2 \<le> n"
          by linarith
        with Suc have "parse_elements (Suc n) (acc @ [x]) r' = parse_elements n (acc @ [x]) r'"
          by blast
        with pv Some p Cons show ?thesis by simp
      qed
    qed
  qed
  have m: "parse_members (Suc (Suc n)) acc s = parse_members (Suc n) acc s"
    if "2 * length s + 2 \<le> Suc n" for acc s
  proof (cases "dropWhile is_json_ws s")
    case Nil
    then show ?thesis by (simp del: dropWhile_eq_Nil_conv)
  next
    case q: (Cons q s1)
    note l1 = dropWhile_Cons_shorter [OF q]
    show ?thesis
    proof (cases "parse_chars s1")
      case None
      with q show ?thesis by simp
    next
      case (Some p)
      obtain k s2 where p: "p = (k, s2)" by (cases p)
      with Some have l2: "length s2 < length s1"
        using parse_chars_shorter by blast
      show ?thesis
      proof (cases "dropWhile is_json_ws s2")
        case Nil
        with q Some p show ?thesis by (simp del: dropWhile_eq_Nil_conv)
      next
        case c: (Cons col s3)
        note l3 = dropWhile_Cons_shorter [OF c]
        from l1 l2 l3 that have "2 * length s3 + 1 \<le> n" by linarith
        with Suc have pv: "parse_value (Suc n) s3 = parse_value n s3" by blast
        show ?thesis
        proof (cases "parse_value n s3")
          case None
          with q Some p c pv show ?thesis by simp
        next
          case x: (Some y)
          obtain x t where y: "y = (x, t)" by (cases y)
          with x parse_shorter [of n] have l4: "length t < length s3" by blast
          show ?thesis
          proof (cases "dropWhile is_json_ws t")
            case Nil
            with q Some p c pv x y show ?thesis by (simp del: dropWhile_eq_Nil_conv)
          next
            case d: (Cons d r')
            from dropWhile_Cons_shorter [OF d] l1 l2 l3 l4 that have "2 * length r' + 2 \<le> n"
              by linarith
            with Suc have "parse_members (Suc n) (obj_set k x acc) r'
                = parse_members n (obj_set k x acc) r'"
              by blast
            with q Some p c pv x y d show ?thesis by simp
          qed
        qed
      qed
    qed
  qed
  from v e m show ?case by blast
qed

lemma parse_value_more_fuel: "parse_value (fuel s + k) s = parse_value (fuel s) s"
proof (induction k)
  case 0
  show ?case by simp
next
  case (Suc k)
  have "2 * length s + 1 \<le> fuel s + k"
    by (simp add: fuel_eq)
  with parse_stable [of "fuel s + k"] Suc show ?case
    by simp
qed

lemma JSON_parse_any_fuel:
  assumes "fuel s \<le> n"
  shows "JSON_parse s =
     (case parse_value n s of
        None \<Rightarrow> None
      | Some (v, r) \<Rightarrow> if dropWhile is_json_ws r = [] then Some v else None)"
proof -
  from assms obtain k where "n = fuel s + k"
    using le_Suc_ex by blast
  then show ?thesis
    by (simp add: JSON_parse_def parse_value_more_fuel)
qed

section \<open>Evaluation of the examples\<close>

lemmas parse_defs =
  JSON_parse_def is_json_ws_def starts_with_def parse_number_def is_digit_def
  nat_of_digits_def digit_val_def obj_set_def array_index_def Let_def

lemmas text_defs =
  trim_def is_space_def replace_fences_def starts_with_def

lemma convertible_opt_simps [simp]:
  "convertible_opt None"
  "convertible_opt (Some x) = convertible x"
  by (simp_all add: convertible_opt_def)

lemma action_convertible_simps [simp]:
  "action_convertible (SelectedEquipment items)"
  "action_convertible (CompletedStep n)"
  "action_convertible (Performed x) = convertible_opt x"
  by (simp_all add: action_convertible_def)

lemma toString_7: "toString 7 = ''7''"
  by (simp add: toString.simps)

lemma call_empty_object: "callGoogleAI (Replies ''{}'') = Inr (JObject [])"
  by (simp add: callGoogleAI_def text_defs parse_defs)

lemma call_analysis:
  \<open>callGoogleAI (Replies ''{"equipmentAnalysis":{}}'') = Inr (JObject [(''equipmentAnalysis'', JObject [])])\<close>
  by (simp add: callGoogleAI_def text_defs parse_defs)

lemma parse_empty_array: "JSON_parse ''[]'' = Some (JArray [])"
  by (simp add: parse_defs)

lemma clean_empty_array: "trim (replace_fences ''[]'') = ''[]''"
  by (simp add: text_defs)

lemma lab_started_eq:
  "lab_started = [''7'' \<mapsto> \<lparr>experimentName = Some (JString ''Assay''), currentStep = 0, actions = [],
      equipmentSelected = False, experimentData = JObject [], equipmentAnalysis = None\<rparr>]"
  by (simp add: lab_started_def start_experiment_def call_empty_object toString_7)

lemma lab_selected_eq:
  "lab_selected = [''7'' \<mapsto> \<lparr>experimentName = Some (JString ''Assay''), currentStep = 0,
      actions = [SelectedEquipment [JString ''burette'']],
      equipmentSelected = True, experimentData = JObject [],
      equipmentAnalysis = Some (JObject [(''equipmentAnalysis'', JObject [])])\<rparr>]"
  by (simp add: lab_selected_def select_equipment_def lab_started_eq id7_def session_get_def
      call_analysis report_throws_def member_def names_throw_def)

lemma interview_started_eq:
  "interview_started = [''7'' \<mapsto> \<lparr>jobRole = Some (JString ''QA''), difficulty = Some (JString ''easy''),
      interviewType = Some (JString ''technical''), numQuestions = Some (JNumber 1),
      questions = [], answers = [], feedbacks = []\<rparr>]"
  by (simp add: interview_started_def start_interview_def toString_7)

lemma interview_asked_eq:
  "interview_asked = [''7'' \<mapsto> \<lparr>jobRole = Some (JString ''QA''), difficulty = Some (JString ''easy''),
      interviewType = Some (JString ''technical''), numQuestions = Some (JNumber 1),
      questions = [''Q1''], answers = [], feedbacks = []\<rparr>]"
  by (simp add: interview_asked_def question_def interview_started_eq id7_def session_get_def)

lemma session_get_Some:
  "session_get sessions sessionId = Some (k, s) \<Longrightarrow> sessionId = Some (JString k) \<and> sessions k = Some s"
  by (auto simp: session_get_def split: option.splits json.splits)

lemma session_get_string [simp]:
  "session_get sessions (Some (JString k)) = (case sessions k of Some s \<Rightarrow> Some (k, s) | None \<Rightarrow> None)"
  by (simp add: session_get_def)

section \<open>The lab requires equipment before a step\<close>

text \<open>
  C10. For a lab session whose \<open>equipmentSelected\<close> flag is false, \<^verbatim>\<open>/next-step\<close> answers
  400 with the error "Equipment must be selected before proceeding.", makes no Gateway call
  and leaves the store, hence \<open>currentStep\<close> and \<open>actions\<close> of the session, as it was.
\<close>

theorem next_step_requires_equipment:
  assumes "session_get sessions sessionId = Some (k, session)"
    and "\<not> equipmentSelected session"
  shows "next_step gw sessionId sessions =
           \<lparr>st = sessions, status = 400,
            body = error_body ''Equipment must be selected before proceeding.'', calls = 0\<rparr>"
  using assms by (simp add: next_step_def)

text \<open>
  C10 at a session that \<^verbatim>\<open>/start-experiment\<close> has just created.
\<close>

theorem next_step_requires_equipment_witness:
  "session_get lab_started id7 = Some (''7'', the (lab_started ''7''))
   \<and> \<not> equipmentSelected (the (lab_started ''7''))
   \<and> next_step (Replies ''{}'') id7 lab_started =
       \<lparr>st = lab_started, status = 400,
        body = error_body ''Equipment must be selected before proceeding.'', calls = 0\<rparr>"
proof -
  have a: "session_get lab_started id7 = Some (''7'', the (lab_started ''7''))"
    by (simp add: lab_started_eq id7_def)
  have b: "\<not> equipmentSelected (the (lab_started ''7''))"
    by (simp add: lab_started_eq)
  show ?thesis
    using a b next_step_requires_equipment [OF a b, of "Replies ''{}''"] by simp
qed

section \<open>What a failed step leaves behind\<close>

text \<open>
  C1 as stated fails: a \<^verbatim>\<open>/next-step\<close> whose Gateway call fails answers 500 and has
  already moved \<open>currentStep\<close> from 0 to 1.
\<close>

theorem failed_advance_counterexample:
  "status (next_step Fails id7 lab_selected) = 500
   \<and> map_option currentStep (lab_selected ''7'') = Some 0
   \<and> map_option currentStep (st (next_step Fails id7 lab_selected) ''7'') = Some 1"
  by (simp add: next_step_def lab_selected_eq id7_def callGoogleAI_def Let_def)

text \<open>
  C1, amended. When the Gateway has been called and the call or the parsing of its reply
  fails, nothing that the call would have produced is appended (no question, no feedback,
  no completed step), and \<^verbatim>\<open>/question\<close> leaves the store as it was; what a handler writes
  before the call stays written: \<^verbatim>\<open>/feedback\<close> has appended the answer, \<^verbatim>\<open>/next-step\<close>
  has incremented \<open>currentStep\<close>, \<^verbatim>\<open>/select-equipment\<close> has set \<open>equipmentSelected\<close> and
  appended its action, \<^verbatim>\<open>/perform-action\<close> has appended the action. (A request that fails
  before the call, while its prompt is built, makes no call; what it has written by then
  is in the definitions of the handlers.)
\<close>

theorem failed_advance_keeps_earlier_writes:
  assumes "session_get interviews sessionId = Some (k, s)"
    and "session_get labs labId = Some (j, l)"
    and "callGoogleAI gw = Inl e"
  shows "st (question Fails sessionId interviews) = interviews
    \<and> (calls (feedback gw sessionId answer interviews) = 1 \<longrightarrow>
          st (feedback gw sessionId answer interviews)
            = interviews(k \<mapsto> s\<lparr>answers := answers s @ [answer]\<rparr>))
    \<and> (calls (next_step gw labId labs) = 1 \<longrightarrow>
          st (next_step gw labId labs) = labs(j \<mapsto> l\<lparr>currentStep := currentStep l + 1\<rparr>))
    \<and> (calls (select_equipment gw labId selectedEquipment labs) = 1 \<longrightarrow>
          (\<exists>items. selectedEquipment = Some (JArray items)
            \<and> st (select_equipment gw labId selectedEquipment labs)
                = labs(j \<mapsto> l\<lparr>equipmentSelected := True,
                                actions := actions l @ [SelectedEquipment items]\<rparr>)))
    \<and> (calls (perform_action gw labId act labs) = 1 \<longrightarrow>
          st (perform_action gw labId act labs)
            = labs(j \<mapsto> l\<lparr>actions := actions l @ [Performed act]\<rparr>))"
proof -
  have q: "st (question Fails sessionId interviews) = interviews"
    by (simp add: question_def split: option.splits)
  have g: "gw = Fails \<or> (\<exists>t. gw = Replies t \<and> JSON_parse (trim (replace_fences t)) = None)"
    using assms(3) by (auto simp: callGoogleAI_def split: gateway.splits option.splits)
  have f: "calls (feedback gw sessionId answer interviews) = 1 \<longrightarrow>
          st (feedback gw sessionId answer interviews)
            = interviews(k \<mapsto> s\<lparr>answers := answers s @ [answer]\<rparr>)"
    using assms(1) g by (auto simp: feedback_def Let_def)
  have n: "calls (next_step gw labId labs) = 1 \<longrightarrow>
          st (next_step gw labId labs) = labs(j \<mapsto> l\<lparr>currentStep := currentStep l + 1\<rparr>)"
    using assms(2,3) by (simp add: next_step_def Let_def)
  have e: "calls (select_equipment gw labId selectedEquipment labs) = 1 \<longrightarrow>
          (\<exists>items. selectedEquipment = Some (JArray items)
            \<and> st (select_equipment gw labId selectedEquipment labs)
                = labs(j \<mapsto> l\<lparr>equipmentSelected := True,
                                actions := actions l @ [SelectedEquipment items]\<rparr>))"
    using assms(2,3)
    by (auto simp: select_equipment_def Let_def split: option.splits json.splits)
  have p: "calls (perform_action gw labId act labs) = 1 \<longrightarrow>
          st (perform_action gw labId act labs)
            = labs(j \<mapsto> l\<lparr>actions := actions l @ [Performed act]\<rparr>)"
    using assms(2,3) by (simp add: perform_action_def Let_def)
  from q f n e p show ?thesis by blast
qed

text \<open>
  C1, amended, at an interview with one question asked and a lab session with its
  equipment selected, the Gateway failing.
\<close>

theorem failed_advance_keeps_earlier_writes_witness:
  "session_get interview_asked id7 = Some (''7'', the (interview_asked ''7''))
   \<and> session_get lab_selected id7 = Some (''7'', the (lab_selected ''7''))
   \<and> callGoogleAI Fails = Inl (Error ''Failed to generate AI response'')
   \<and> calls (feedback Fails id7 (Some (JString ''A1'')) interview_asked) = 1
   \<and> calls (next_step Fails id7 lab_selected) = 1
   \<and> calls (select_equipment Fails id7 (Some (JArray [JString ''pipette''])) lab_selected) = 1
   \<and> calls (perform_action Fails id7 (Some (JString ''stir'')) lab_selected) = 1
   \<and> st (question Fails id7 interview_asked) = interview_asked
   \<and> map_option answers (st (feedback Fails id7 (Some (JString ''A1'')) interview_asked) ''7'')
       = Some [Some (JString ''A1'')]
   \<and> map_option feedbacks (st (feedback Fails id7 (Some (JString ''A1'')) interview_asked) ''7'')
       = Some []
   \<and> map_option currentStep (st (next_step Fails id7 lab_selected) ''7'') = Some 1
   \<and> map_option actions (st (next_step Fails id7 lab_selected) ''7'')
       = Some [SelectedEquipment [JString ''burette'']]
   \<and> map_option actions
         (st (select_equipment Fails id7 (Some (JArray [JString ''pipette''])) lab_selected) ''7'')
       = Some [SelectedEquipment [JString ''burette''], SelectedEquipment [JString ''pipette'']]
   \<and> map_option actions (st (perform_action Fails id7 (Some (JString ''stir'')) lab_selected) ''7'')
       = Some [SelectedEquipment [JString ''burette''], Performed (Some (JString ''stir''))]"
proof -
  have a: "session_get interview_asked id7 = Some (''7'', the (interview_asked ''7''))"
    by (simp add: interview_asked_eq id7_def)
  have b: "session_get lab_selected id7 = Some (''7'', the (lab_selected ''7''))"
    by (simp add: lab_selected_eq id7_def)
  have c: "callGoogleAI Fails = Inl (Error ''Failed to generate AI response'')"
    by (simp add: callGoogleAI_def)
  have d: "calls (feedback Fails id7 (Some (JString ''A1'')) interview_asked) = 1"
    "calls (next_step Fails id7 lab_selected) = 1"
    "calls (select_equipment Fails id7 (Some (JArray [JString ''pipette''])) lab_selected) = 1"
    "calls (perform_action Fails id7 (Some (JString ''stir'')) lab_selected) = 1"
    by (simp_all add: feedback_def next_step_def select_equipment_def perform_action_def
        interview_asked_eq lab_selected_eq id7_def c Let_def)
  show ?thesis
    using a b c d
      failed_advance_keeps_earlier_writes [OF a b c, of "Some (JString ''A1'')"
        "Some (JArray [JString ''pipette''])" "Some (JString ''stir'')"]
    by (simp add: interview_asked_eq lab_selected_eq)
qed

section \<open>Completion removes the session\<close>

text \<open>
  C3 as stated fails: a successful \<^verbatim>\<open>/interview-summary\<close> leaves the store as it was, so a
  second summary and a further \<^verbatim>\<open>/question\<close> with the same id succeed.
\<close>

theorem summary_keeps_session_counterexample:
  "status (interview_summary (Replies ''[]'') ''7'' interview_asked) = 200
   \<and> st (interview_summary (Replies ''[]'') ''7'' interview_asked) = interview_asked
   \<and> status (interview_summary (Replies ''[]'') ''7''
        (st (interview_summary (Replies ''[]'') ''7'' interview_asked))) = 200
   \<and> status (question (Replies ''Q2'') id7
        (st (interview_summary (Replies ''[]'') ''7'' interview_asked))) = 200"
  by (simp add: interview_summary_def question_def interview_asked_eq id7_def clean_empty_array
      parse_empty_array details_convertible_def at_index_def)

lemma generate_two: "generate_array (Replies ''[{},{}]'') = Some [JObject [], JObject []]"
  by (simp add: generate_array_def text_defs parse_defs)

lemma quiz_started_eq:
  "quiz_started =
     \<lparr>questionCache = [''easy-hygiene'' \<mapsto> \<lparr>cached = [JObject [], JObject []], expires = 3600007\<rparr>],
      quizSessions = [''7'' \<mapsto> \<lparr>quiz_questions = [JObject [], JObject []], currentQuestionIndex = 0,
         numberOfQuestions = 2, quiz_difficulty = ''easy'', category = ''hygiene''\<rparr>]\<rparr>"
  by (simp add: quiz_started_def start_quiz_def pregenerateQuestions_def cached_questions_def
      cache_get_def cache_set_def stdTTL_def generate_two slice0_def quiz_empty_def toString_7
      Let_def numeral_2_eq_2)

lemma quiz_done_eq:
  "quiz_done = quiz_started\<lparr>quizSessions := [''7'' \<mapsto> \<lparr>quiz_questions = [JObject [], JObject []],
       currentQuestionIndex = 2, numberOfQuestions = 2, quiz_difficulty = ''easy'',
       category = ''hygiene''\<rparr>]\<rparr>"
  by (simp add: quiz_done_def generate_question_def quiz_started_eq id7_def Let_def numeral_2_eq_2)

text \<open>
  C3, amended. A successful \<^verbatim>\<open>/complete-quiz\<close> or \<^verbatim>\<open>/complete-experiment\<close> removes the
  session: a second completion and every later advance with the same id answer 404
  (\<^verbatim>\<open>/interview-summary\<close> removes nothing).
\<close>

theorem complete_removes_session:
  assumes "status (complete_quiz gw quizId S) = 200"
    and "status (complete_experiment gw' labId labs) = 200"
  shows "status (complete_quiz gw2 quizId (st (complete_quiz gw quizId S))) = 404
    \<and> status (generate_question quizId (st (complete_quiz gw quizId S))) = 404
    \<and> status (complete_experiment gw2 labId (st (complete_experiment gw' labId labs))) = 404
    \<and> status (next_step gw2 labId (st (complete_experiment gw' labId labs))) = 404
    \<and> status (select_equipment gw2 labId items (st (complete_experiment gw' labId labs))) = 404
    \<and> status (perform_action gw2 labId act (st (complete_experiment gw' labId labs))) = 404"
proof -
  obtain k s where q: "session_get (quizSessions S) quizId = Some (k, s)"
    using assms(1) by (cases "session_get (quizSessions S) quizId") (auto simp: complete_quiz_def)
  have q': "session_get (quizSessions (st (complete_quiz gw quizId S))) quizId = None"
    using q assms(1) session_get_Some [OF q]
    by (auto simp: complete_quiz_def error_body_def split: gateway.splits)
  obtain j l where e: "session_get labs labId = Some (j, l)"
    using assms(2) by (cases "session_get labs labId") (auto simp: complete_experiment_def)
  have e': "session_get (st (complete_experiment gw' labId labs)) labId = None"
    using e assms(2) session_get_Some [OF e]
    by (auto simp: complete_experiment_def split: sum.splits if_splits)
  show ?thesis
    using q' e'
    by (simp add: complete_quiz_def generate_question_def complete_experiment_def next_step_def
        select_equipment_def perform_action_def)
qed

text \<open>
  C3, amended, at the example quiz and lab sessions.
\<close>

theorem complete_removes_session_witness:
  "status (complete_quiz (Replies ''ok'') id7 quiz_started) = 200
   \<and> status (complete_experiment (Replies ''{}'') id7 lab_selected) = 200
   \<and> status (complete_quiz (Replies ''ok'') id7
        (st (complete_quiz (Replies ''ok'') id7 quiz_started))) = 404
   \<and> status (generate_question id7 (st (complete_quiz (Replies ''ok'') id7 quiz_started))) = 404
   \<and> status (complete_experiment (Replies ''{}'') id7
        (st (complete_experiment (Replies ''{}'') id7 lab_selected))) = 404
   \<and> status (next_step (Replies ''{}'') id7
        (st (complete_experiment (Replies ''{}'') id7 lab_selected))) = 404
   \<and> status (select_equipment (Replies ''{}'') id7 (Some (JArray []))
        (st (complete_experiment (Replies ''{}'') id7 lab_selected))) = 404
   \<and> status (perform_action (Replies ''{}'') id7 (Some (JString ''stir''))
        (st (complete_experiment (Replies ''{}'') id7 lab_selected))) = 404"
proof -
  have a: "status (complete_quiz (Replies ''ok'') id7 quiz_started) = 200"
    by (simp add: complete_quiz_def quiz_started_eq id7_def)
  have b: "status (complete_experiment (Replies ''{}'') id7 lab_selected) = 200"
    by (simp add: complete_experiment_def lab_selected_eq id7_def call_empty_object)
  show ?thesis
    using a b complete_removes_session [OF a b] by simp
qed

section \<open>History and cursor\<close>

text \<open>
  C4 as stated fails: before a successful \<^verbatim>\<open>/next-step\<close> the lab session reached by
  \<^verbatim>\<open>/start-experiment\<close> and \<^verbatim>\<open>/select-equipment\<close> has one action and \<open>currentStep\<close> 0, and
  after it two actions and \<open>currentStep\<close> 1.
\<close>

theorem lab_history_counterexample:
  "map_option actions (lab_selected ''7'') = Some [SelectedEquipment [JString ''burette'']]
   \<and> map_option currentStep (lab_selected ''7'') = Some 0
   \<and> status (next_step (Replies ''{}'') id7 lab_selected) = 200
   \<and> map_option actions (st (next_step (Replies ''{}'') id7 lab_selected) ''7'')
       = Some [SelectedEquipment [JString ''burette''], CompletedStep 1]
   \<and> map_option currentStep (st (next_step (Replies ''{}'') id7 lab_selected) ''7'') = Some 1"
  by (simp add: next_step_def lab_selected_eq id7_def call_empty_object)

text \<open>
  C4, amended. A successful advance adds one to the history and one to the cursor, so an
  equality of the two that holds before it holds after it: \<^verbatim>\<open>/question\<close> appends one
  question (the cursor of an interview is the length of \<open>questions\<close>); a
  \<^verbatim>\<open>/generate-question\<close> that serves a question moves \<open>currentQuestionIndex\<close> by one and tags
  the question with the old index, the number of questions served before; a successful
  \<^verbatim>\<open>/next-step\<close> adds one to \<open>currentStep\<close> and one action. (In the lab the two need not be
  equal: \<^verbatim>\<open>/select-equipment\<close> and \<^verbatim>\<open>/perform-action\<close> append actions without moving
  \<open>currentStep\<close>.)
\<close>

theorem advance_adds_one_to_both:
  assumes "session_get interviews sessionId = Some (k, s)"
    and "status (question gw sessionId interviews) = 200"
    and "session_get (quizSessions S) quizId = Some (q, u)"
    and "currentQuestionIndex u < numberOfQuestions u"
    and "session_get labs labId = Some (j, l)"
    and "status (next_step gw' labId labs) = 200"
  shows "(\<exists>s'. st (question gw sessionId interviews) k = Some s'
            \<and> length (questions s') = length (questions s) + 1)
    \<and> (\<exists>u'. quizSessions (st (generate_question quizId S)) q = Some u'
            \<and> currentQuestionIndex u' = currentQuestionIndex u + 1
            \<and> quiz_questions u' = quiz_questions u
            \<and> body (generate_question quizId S) =
                Json (JObject (obj_set ''questionIndex'' (JNumber (of_nat (currentQuestionIndex u)))
                  (spread (at_index (quiz_questions u) (currentQuestionIndex u))))))
    \<and> (\<exists>l'. st (next_step gw' labId labs) j = Some l'
            \<and> currentStep l' = currentStep l + 1
            \<and> length (actions l') = length (actions l) + 1)"
proof -
  have a: "\<exists>s'. st (question gw sessionId interviews) k = Some s'
            \<and> length (questions s') = length (questions s) + 1"
    using assms(1,2) by (auto simp: question_def split: gateway.splits if_splits)
  have b: "\<exists>u'. quizSessions (st (generate_question quizId S)) q = Some u'
            \<and> currentQuestionIndex u' = currentQuestionIndex u + 1
            \<and> quiz_questions u' = quiz_questions u
            \<and> body (generate_question quizId S) =
                Json (JObject (obj_set ''questionIndex'' (JNumber (of_nat (currentQuestionIndex u)))
                  (spread (at_index (quiz_questions u) (currentQuestionIndex u)))))"
    using assms(3,4) by (simp add: generate_question_def Let_def)
  have c: "\<exists>l'. st (next_step gw' labId labs) j = Some l'
            \<and> currentStep l' = currentStep l + 1
            \<and> length (actions l') = length (actions l) + 1"
    using assms(5,6) by (auto simp: next_step_def Let_def error_body_def split: if_splits sum.splits)
  from a b c show ?thesis by blast
qed

text \<open>
  C4, amended, at the example interview, quiz and lab sessions.
\<close>

theorem advance_adds_one_to_both_witness:
  "session_get interview_asked id7 = Some (''7'', the (interview_asked ''7''))
   \<and> status (question (Replies ''Q2'') id7 interview_asked) = 200
   \<and> session_get (quizSessions quiz_started) id7 = Some (''7'', the (quizSessions quiz_started ''7''))
   \<and> currentQuestionIndex (the (quizSessions quiz_started ''7''))
       < numberOfQuestions (the (quizSessions quiz_started ''7''))
   \<and> session_get lab_selected id7 = Some (''7'', the (lab_selected ''7''))
   \<and> status (next_step (Replies ''{}'') id7 lab_selected) = 200
   \<and> (\<exists>s'. st (question (Replies ''Q2'') id7 interview_asked) ''7'' = Some s'
          \<and> length (questions s') = 2)
   \<and> (\<exists>u'. quizSessions (st (generate_question id7 quiz_started)) ''7'' = Some u'
          \<and> currentQuestionIndex u' = 1)
   \<and> (\<exists>l'. st (next_step (Replies ''{}'') id7 lab_selected) ''7'' = Some l'
          \<and> currentStep l' = 1 \<and> length (actions l') = 2)"
proof -
  have a: "session_get interview_asked id7 = Some (''7'', the (interview_asked ''7''))"
    by (simp add: interview_asked_eq id7_def)
  have b: "status (question (Replies ''Q2'') id7 interview_asked) = 200"
    by (simp add: question_def interview_asked_eq id7_def)
  have c: "session_get (quizSessions quiz_started) id7 = Some (''7'', the (quizSessions quiz_started ''7''))"
    by (simp add: quiz_started_eq id7_def)
  have d: "currentQuestionIndex (the (quizSessions quiz_started ''7''))
       < numberOfQuestions (the (quizSessions quiz_started ''7''))"
    by (simp add: quiz_started_eq)
  have e: "session_get lab_selected id7 = Some (''7'', the (lab_selected ''7''))"
    by (simp add: lab_selected_eq id7_def)
  have f: "status (next_step (Replies ''{}'') id7 lab_selected) = 200"
    by (simp add: next_step_def lab_selected_eq id7_def call_empty_object)
  have v: "length (questions (the (interview_asked ''7''))) = 1"
    "currentQuestionIndex (the (quizSessions quiz_started ''7'')) = 0"
    "currentStep (the (lab_selected ''7'')) = 0"
    "length (actions (the (lab_selected ''7''))) = 1"
    by (simp_all add: interview_asked_eq quiz_started_eq lab_selected_eq)
  show ?thesis
    using a b c d e f advance_adds_one_to_both [OF a b c d e f] unfolding v
    by auto
qed

section \<open>Pre-generation of quiz questions\<close>

text \<open>
  C6 as stated fails: with two questions cached for the key and three requested, a
  failing Gateway makes \<open>pregenerateQuestions\<close> return no question, fewer than the two
  generated so far.
\<close>

theorem pregenerate_failure_counterexample:
  "cached_questions 8 ''easy-hygiene'' (questionCache quiz_started) = [JObject [], JObject []]
   \<and> fst (pregenerateQuestions 8 Fails ''easy'' ''hygiene'' 3 (questionCache quiz_started)) = []"
  by (simp add: pregenerateQuestions_def cached_questions_def cache_get_def quiz_started_eq
      generate_array_def Let_def)

lemma length_slice0: "0 \<le> count \<Longrightarrow> length (slice0 count xs) = min (nat count) (length xs)"
  by (simp add: slice0_def)

lemma cached_questions_set:
  "cached_questions now key (cache_set now key qs cache) = qs"
  by (simp add: cached_questions_def cache_get_def cache_set_def)

text \<open>
  C6, amended. For a count that is not negative: when the unexpired cached pool has at
  least \<open>count\<close> questions, \<open>pregenerateQuestions\<close> returns its first \<open>count\<close> questions
  without a Gateway call; otherwise, when the generation succeeds, it returns the first
  \<open>count\<close> questions of the pool followed by the new ones, that is
  \<open>min count (|pool| + |new|)\<close> of them, and the cache then holds the pool followed by the
  new questions; when the generation fails it returns no question and leaves the cache as
  the lookup left it.
\<close>

theorem pregenerate_accumulates:
  assumes "0 \<le> count"
    and "pool = cached_questions now (level @ ''-'' @ topic) cache"
    and "r = pregenerateQuestions now gw level topic count cache"
  shows "(count \<le> int (length pool) \<longrightarrow>
            fst r = take (nat count) pool \<and> length (fst r) = nat count
            \<and> fst (snd r) = snd (cache_get now (level @ ''-'' @ topic) cache) \<and> snd (snd r) = 0)
    \<and> (int (length pool) < count \<longrightarrow>
          (\<forall>new. generate_array gw = Some new \<longrightarrow>
               fst r = take (nat count) (pool @ new)
               \<and> length (fst r) = min (nat count) (length pool + length new)
               \<and> cached_questions now (level @ ''-'' @ topic) (fst (snd r)) = pool @ new)
        \<and> (generate_array gw = None \<longrightarrow>
               fst r = [] \<and> fst (snd r) = snd (cache_get now (level @ ''-'' @ topic) cache)))"
  using assms
  by (auto simp: pregenerateQuestions_def Let_def slice0_def cached_questions_set)

text \<open>
  C6, amended, at the cache the example quiz has filled with two questions.
\<close>

theorem pregenerate_accumulates_witness:
  "(0::int) \<le> 3
   \<and> cached_questions 8 ''easy-hygiene'' (questionCache quiz_started) = [JObject [], JObject []]
   \<and> generate_array (Replies ''[{},{}]'') = Some [JObject [], JObject []]
   \<and> fst (pregenerateQuestions 8 (Replies ''[{},{}]'') ''easy'' ''hygiene'' 3 (questionCache quiz_started))
       = [JObject [], JObject [], JObject []]
   \<and> cached_questions 8 ''easy-hygiene''
        (fst (snd (pregenerateQuestions 8 (Replies ''[{},{}]'') ''easy'' ''hygiene'' 3
           (questionCache quiz_started))))
       = [JObject [], JObject [], JObject [], JObject []]
   \<and> fst (pregenerateQuestions 8 Fails ''easy'' ''hygiene'' 2 (questionCache quiz_started))
       = [JObject [], JObject []]"
proof -
  have p: "cached_questions 8 ''easy-hygiene'' (questionCache quiz_started) = [JObject [], JObject []]"
    by (simp add: cached_questions_def cache_get_def quiz_started_eq)
  have p': "[JObject [], JObject []]
      = cached_questions 8 (''easy'' @ ''-'' @ ''hygiene'') (questionCache quiz_started)"
    using p by simp
  have f: "generate_array Fails = None"
    by (simp add: generate_array_def)
  have z: "(0::int) \<le> 3" "(0::int) \<le> 2"
    by simp_all
  show ?thesis
    using p generate_two f
      pregenerate_accumulates [OF z(1) p' refl, of "Replies ''[{},{}]''"]
      pregenerate_accumulates [OF z(2) p' refl, of Fails]
    by simp
qed

section \<open>The bound on the cursor\<close>

text \<open>
  C2 as stated fails: an interview started with \<open>numQuestions = 1\<close> that has one question
  gets a second one from \<^verbatim>\<open>/question\<close>, with a Gateway call.
\<close>

theorem interview_beyond_maximum_counterexample:
  "map_option numQuestions (interview_asked ''7'') = Some (Some (JNumber 1))
   \<and> map_option questions (interview_asked ''7'') = Some [''Q1'']
   \<and> status (question (Replies ''Q2'') id7 interview_asked) = 200
   \<and> calls (question (Replies ''Q2'') id7 interview_asked) = 1
   \<and> map_option questions (st (question (Replies ''Q2'') id7 interview_asked) ''7'')
       = Some [''Q1'', ''Q2'']"
  by (simp add: question_def interview_asked_eq id7_def)

lemma within_bound_empty: "within_bound quiz_empty"
  by (simp add: within_bound_def quiz_empty_def)

text \<open>
  C2, amended. In the quiz the cursor never exceeds the number of questions: the bound
  holds in the empty store (\<open>within_bound_empty\<close>) and every quiz request keeps it; and once
  \<open>currentQuestionIndex\<close> has reached \<open>numberOfQuestions\<close>, \<^verbatim>\<open>/generate-question\<close> answers
  \<^verbatim>\<open>{quizCompleted: true}\<close> and changes nothing. (The interview has no such guard and the lab
  has no maximum.)
\<close>

theorem quiz_cursor_bounded:
  assumes "within_bound S"
  shows "within_bound (st (start_quiz now gw n level topic S))
    \<and> within_bound (st (generate_question sessionId S))
    \<and> within_bound (st (complete_quiz gw sessionId S))
    \<and> (\<forall>k s. session_get (quizSessions S) sessionId = Some (k, s)
           \<and> currentQuestionIndex s = numberOfQuestions s \<longrightarrow>
         generate_question sessionId S =
           \<lparr>st = S, status = 200, body = Json (JObject [(''quizCompleted'', JBool True)]),
            calls = 0\<rparr>)"
proof -
  have a: "within_bound (st (start_quiz now gw n level topic S))"
    using assms by (auto simp: within_bound_def start_quiz_def Let_def)
  have b: "within_bound (st (generate_question sessionId S))"
    using assms
    by (auto simp: within_bound_def generate_question_def Let_def
        split: option.splits if_splits dest!: session_get_Some)
  have c: "within_bound (st (complete_quiz gw sessionId S))"
    using assms
    by (auto simp: within_bound_def complete_quiz_def split: option.splits gateway.splits if_splits)
  have d: "\<forall>k s. session_get (quizSessions S) sessionId = Some (k, s)
           \<and> currentQuestionIndex s = numberOfQuestions s \<longrightarrow>
         generate_question sessionId S =
           \<lparr>st = S, status = 200, body = Json (JObject [(''quizCompleted'', JBool True)]),
            calls = 0\<rparr>"
    by (simp add: generate_question_def)
  from a b c d show ?thesis by blast
qed

text \<open>
  C2, amended, along the example quiz: started, two questions served, then completed.
\<close>

theorem quiz_cursor_bounded_witness:
  "within_bound quiz_empty
   \<and> within_bound quiz_started
   \<and> within_bound quiz_done
   \<and> map_option currentQuestionIndex (quizSessions quiz_done ''7'') = Some 2
   \<and> map_option numberOfQuestions (quizSessions quiz_done ''7'') = Some 2
   \<and> generate_question id7 quiz_done =
        \<lparr>st = quiz_done, status = 200, body = Json (JObject [(''quizCompleted'', JBool True)]),
         calls = 0\<rparr>"
proof -
  note e = within_bound_empty
  have s: "within_bound quiz_started"
    using quiz_cursor_bounded [OF e, of 7 "Replies ''[{},{}]''" 2 "''easy''" "''hygiene''"]
    by (simp add: quiz_started_def)
  have m: "within_bound (st (generate_question id7 quiz_started))"
    using quiz_cursor_bounded [OF s, of _ _ _ _ _ id7] by simp
  have d: "within_bound quiz_done"
    using quiz_cursor_bounded [OF m, of _ _ _ _ _ id7] by (simp add: quiz_done_def)
  have g: "session_get (quizSessions quiz_done) id7 = Some (''7'', the (quizSessions quiz_done ''7''))"
    "currentQuestionIndex (the (quizSessions quiz_done ''7''))
      = numberOfQuestions (the (quizSessions quiz_done ''7''))"
    by (simp_all add: quiz_done_eq id7_def)
  show ?thesis
    using e s d g quiz_cursor_bounded [OF d, of _ _ _ _ _ id7]
    by (simp add: quiz_done_eq)
qed

lemma map_of_replace:
  "k \<in> fst ` set xs \<Longrightarrow> map_of (map (\<lambda>p. if fst p = k then (k, v) else p) xs) k = Some v"
  by (induction xs) auto

lemma map_of_insert_index:
  "array_index k = Some i \<Longrightarrow> map_of (insert_index i k v xs) k = Some v"
  by (induction xs) (auto split: option.splits)

lemma map_of_append_new:
  "k \<notin> fst ` set xs \<Longrightarrow> ([k \<mapsto> v] ++ map_of xs) k = Some v"
  by (simp add: map_add_Some_iff map_of_eq_None_iff)

lemma member_obj_set: "member (JObject (obj_set k v xs)) k = Some v"
  by (simp add: member_def obj_set_def map_of_replace map_of_insert_index map_of_append_new
      split: option.splits)

lemma generate_question_serves:
  assumes "session_get (quizSessions S) sessionId = Some (k, s)"
    and "currentQuestionIndex s < numberOfQuestions s"
    and "numberOfQuestions s = length (quiz_questions s)"
  shows "generate_question sessionId S =
     \<lparr>st = S\<lparr>quizSessions := (quizSessions S)(k \<mapsto>
              s\<lparr>currentQuestionIndex := currentQuestionIndex s + 1\<rparr>)\<rparr>,
      status = 200,
      body = Json (JObject (obj_set ''questionIndex'' (JNumber (of_nat (currentQuestionIndex s)))
               (spread (Some (quiz_questions s ! currentQuestionIndex s))))),
      calls = 0\<rparr>"
  using assms by (simp add: generate_question_def Let_def at_index_def)

lemma generate_questions_run:
  assumes "session_get (quizSessions S) sessionId = Some (k, s)"
    and "numberOfQuestions s = length (quiz_questions s)"
    and "currentQuestionIndex s + m = numberOfQuestions s"
  shows "map body (generate_questions (Suc m) sessionId S) =
       map (\<lambda>i. Json (JObject (obj_set ''questionIndex'' (JNumber (of_nat i))
                  (spread (Some (quiz_questions s ! i))))))
         [currentQuestionIndex s ..< numberOfQuestions s]
       @ [Json (JObject [(''quizCompleted'', JBool True)])]
     \<and> (\<forall>r \<in> set (generate_questions (Suc m) sessionId S). status r = 200 \<and> calls r = 0)"
  using assms
proof (induction m arbitrary: S s)
  case 0
  then show ?case by (simp add: generate_question_def)
next
  case (Suc m)
  let ?s' = "s\<lparr>currentQuestionIndex := currentQuestionIndex s + 1\<rparr>"
  let ?S' = "S\<lparr>quizSessions := (quizSessions S)(k \<mapsto> ?s')\<rparr>"
  have lt: "currentQuestionIndex s < numberOfQuestions s"
    using Suc.prems(3) by simp
  note g = generate_question_serves [OF Suc.prems(1) lt Suc.prems(2)]
  have key: "sessionId = Some (JString k)"
    using session_get_Some [OF Suc.prems(1)] by simp
  have get': "session_get (quizSessions ?S') sessionId = Some (k, ?s')"
    by (simp add: key)
  have ih: "map body (generate_questions (Suc m) sessionId ?S') =
       map (\<lambda>i. Json (JObject (obj_set ''questionIndex'' (JNumber (of_nat i))
                  (spread (Some (quiz_questions s ! i))))))
         [Suc (currentQuestionIndex s) ..< numberOfQuestions s]
       @ [Json (JObject [(''quizCompleted'', JBool True)])]
     \<and> (\<forall>r \<in> set (generate_questions (Suc m) sessionId ?S'). status r = 200 \<and> calls r = 0)"
    using Suc.IH [OF get'] Suc.prems(2,3) by simp
  have unfold: "generate_questions (Suc (Suc m)) sessionId S =
      generate_question sessionId S # generate_questions (Suc m) sessionId ?S'"
    by (subst generate_questions.simps) (simp add: g)
  show ?case
    unfolding unfold using ih lt by (simp add: g upt_conv_Cons)
qed

lemma map_of_replace_other:
  "k \<noteq> k' \<Longrightarrow> map_of (map (\<lambda>p. if fst p = k' then (k', v) else p) xs) k = map_of xs k"
  by (induction xs) auto

lemma map_of_insert_index_other:
  "k \<noteq> k' \<Longrightarrow> map_of (insert_index i k' v xs) k = map_of xs k"
  by (induction xs) (auto split: option.splits)

lemma member_obj_set_other:
  "k \<noteq> k' \<Longrightarrow> member (JObject (obj_set k' v xs)) k = map_of xs k"
  by (simp add: member_def obj_set_def map_of_replace_other map_of_insert_index_other
      map_add_def split: option.splits)

lemma pregenerate_length:
  "0 \<le> count \<Longrightarrow> int (length (fst (pregenerateQuestions now gw level topic count cache))) \<le> count"
  by (auto simp: pregenerateQuestions_def Let_def length_slice0 split: option.splits)

lemma parse_two_questions:
  \<open>generate_array (Replies ''[{"q":1},{"q":2}]'')
     = Some [JObject [(''q'', JNumber 1)], JObject [(''q'', JNumber 2)]]\<close>
  by (simp add: generate_array_def text_defs parse_defs)

lemma quiz_empty_simps [simp]:
  "questionCache quiz_empty = Map.empty"
  "quizSessions quiz_empty = Map.empty"
  by (simp_all add: quiz_empty_def)

lemma pregenerate_short:
  \<open>pregenerateQuestions 7 (Replies ''[{"q":1},{"q":2}]'') ''easy'' ''hygiene'' 3 Map.empty
     = ([JObject [(''q'', JNumber 1)], JObject [(''q'', JNumber 2)]],
        [''easy-hygiene'' \<mapsto>
           \<lparr>cached = [JObject [(''q'', JNumber 1)], JObject [(''q'', JNumber 2)]],
            expires = 3600007\<rparr>], 1)\<close>
  by (simp add: pregenerateQuestions_def cached_questions_def cache_get_def cache_set_def
      stdTTL_def parse_two_questions slice0_def Let_def)

lemma quiz_short_eq:
  "quiz_short =
     \<lparr>questionCache = [''easy-hygiene'' \<mapsto>
         \<lparr>cached = [JObject [(''q'', JNumber 1)], JObject [(''q'', JNumber 2)]],
          expires = 3600007\<rparr>],
      quizSessions = [''7'' \<mapsto>
        \<lparr>quiz_questions = [JObject [(''q'', JNumber 1)], JObject [(''q'', JNumber 2)]],
         currentQuestionIndex = 0, numberOfQuestions = 2, quiz_difficulty = ''easy'',
         category = ''hygiene''\<rparr>]\<rparr>"
  by (simp add: quiz_short_def start_quiz_def pregenerate_short Let_def toString_7 numeral_2_eq_2)

lemma set_question_index:
  "obj_set ''questionIndex'' x [(''q'', y)] = [(''q'', y), (''questionIndex'', x)]"
  by (simp add: obj_set_def array_index_def is_digit_def)

section \<open>The quiz serves its questions in order\<close>

text \<open>
  C5 as stated fails: a \<^verbatim>\<open>/start-quiz\<close> with \<open>numberOfQuestions = 3\<close> whose Gateway reply
  holds two questions succeeds (the session stores the length of the pool, 2, as its
  \<open>numberOfQuestions\<close>); the first two \<^verbatim>\<open>/generate-question\<close> requests answer with
  \<open>questionIndex\<close> 0 and 1, and the third, which should carry \<open>questionIndex = 2\<close>,
  answers \<^verbatim>\<open>{quizCompleted: true}\<close>.
\<close>

theorem short_pool_counterexample:
  \<open>status (start_quiz 7 (Replies ''[{"q":1},{"q":2}]'') 3 ''easy'' ''hygiene'' quiz_empty) = 200
   \<and> map body (generate_questions 3 id7 quiz_short) =
       [Json (JObject [(''q'', JNumber 1), (''questionIndex'', JNumber 0)]),
        Json (JObject [(''q'', JNumber 2), (''questionIndex'', JNumber 1)]),
        Json (JObject [(''quizCompleted'', JBool True)])]\<close>
  by (simp add: start_quiz_def pregenerate_short Let_def numeral_3_eq_3 generate_question_def
      quiz_short_eq id7_def at_index_def spread_def Object_entries_def set_question_index)

text \<open>
  C5, amended. When \<^verbatim>\<open>/start-quiz\<close> succeeds, its pre-generated pool has \<open>m\<close> questions
  with \<open>1 \<le> m\<close> (and \<open>m \<le> n\<close> for a requested \<open>numberOfQuestions = n\<close> that is not
  negative). The first \<open>m\<close> \<^verbatim>\<open>/generate-question\<close> requests answer 200, without a Gateway
  call, with the questions of the pool in order, the \<open>i\<close>-th being the \<open>i\<close>-th question
  of the pool with \<open>questionIndex = i\<close> set (every other member as in the pool), from 0 to
  \<open>m - 1\<close>, and the next one answers \<^verbatim>\<open>{quizCompleted: true}\<close>.
\<close>

theorem quiz_serves_its_pool:
  assumes "status (start_quiz now gw n level topic S) = 200"
    and "pool = fst (pregenerateQuestions now gw level topic n (questionCache S))"
  shows "pool \<noteq> []
    \<and> (0 \<le> n \<longrightarrow> int (length pool) \<le> n)
    \<and> map body (generate_questions (length pool + 1) (Some (JString (toString now)))
                    (st (start_quiz now gw n level topic S))) =
         map (\<lambda>i. Json (JObject (obj_set ''questionIndex'' (JNumber (of_nat i))
                    (spread (Some (pool ! i))))))
           [0 ..< length pool]
         @ [Json (JObject [(''quizCompleted'', JBool True)])]
    \<and> (\<forall>r \<in> set (generate_questions (length pool + 1) (Some (JString (toString now)))
                      (st (start_quiz now gw n level topic S))). status r = 200 \<and> calls r = 0)
    \<and> (\<forall>i kvs k. pool ! i = JObject kvs \<longrightarrow>
          member (JObject (obj_set ''questionIndex'' (JNumber (of_nat i)) (spread (Some (pool ! i)))))
            ''questionIndex'' = Some (JNumber (of_nat i))
          \<and> (k \<noteq> ''questionIndex'' \<longrightarrow>
               member (JObject (obj_set ''questionIndex'' (JNumber (of_nat i))
                        (spread (Some (pool ! i))))) k = map_of kvs k))"
proof -
  let ?s = "\<lparr>quiz_questions = pool, currentQuestionIndex = 0, numberOfQuestions = length pool,
             quiz_difficulty = level, category = topic\<rparr>"
  let ?S = "st (start_quiz now gw n level topic S)"
  have ne: "pool \<noteq> []"
    using assms by (auto simp: start_quiz_def Let_def split: if_splits)
  have le: "0 \<le> n \<longrightarrow> int (length pool) \<le> n"
    using assms(2) pregenerate_length by simp
  have get: "session_get (quizSessions ?S) (Some (JString (toString now))) = Some (toString now, ?s)"
    using ne assms(2) by (simp add: start_quiz_def Let_def)
  have "currentQuestionIndex ?s + length pool = numberOfQuestions ?s"
    by simp
  from generate_questions_run [OF get _ this]
  have run: "map body (generate_questions (length pool + 1) (Some (JString (toString now))) ?S) =
         map (\<lambda>i. Json (JObject (obj_set ''questionIndex'' (JNumber (of_nat i))
                    (spread (Some (pool ! i))))))
           [0 ..< length pool]
         @ [Json (JObject [(''quizCompleted'', JBool True)])]
    \<and> (\<forall>r \<in> set (generate_questions (length pool + 1) (Some (JString (toString now))) ?S).
          status r = 200 \<and> calls r = 0)"
    by simp
  have content: "\<forall>i kvs k. pool ! i = JObject kvs \<longrightarrow>
          member (JObject (obj_set ''questionIndex'' (JNumber (of_nat i)) (spread (Some (pool ! i)))))
            ''questionIndex'' = Some (JNumber (of_nat i))
          \<and> (k \<noteq> ''questionIndex'' \<longrightarrow>
               member (JObject (obj_set ''questionIndex'' (JNumber (of_nat i))
                        (spread (Some (pool ! i))))) k = map_of kvs k)"
    by (simp add: member_obj_set member_obj_set_other spread_def Object_entries_def)
  from ne le run content show ?thesis by blast
qed

text \<open>
  C5, amended, at a quiz of three questions asked for and two pre-generated.
\<close>

theorem quiz_serves_its_pool_witness:
  \<open>status (start_quiz 7 (Replies ''[{"q":1},{"q":2}]'') 3 ''easy'' ''hygiene'' quiz_empty) = 200
   \<and> fst (pregenerateQuestions 7 (Replies ''[{"q":1},{"q":2}]'') ''easy'' ''hygiene'' 3
        (questionCache quiz_empty))
       = [JObject [(''q'', JNumber 1)], JObject [(''q'', JNumber 2)]]
   \<and> map body (generate_questions (2 + 1) id7 quiz_short) =
       [Json (JObject [(''q'', JNumber 1), (''questionIndex'', JNumber 0)]),
        Json (JObject [(''q'', JNumber 2), (''questionIndex'', JNumber 1)]),
        Json (JObject [(''quizCompleted'', JBool True)])]
   \<and> member (JObject [(''q'', JNumber 2), (''questionIndex'', JNumber 1)]) ''q'' = Some (JNumber 2)\<close>
proof -
  have a: \<open>status (start_quiz 7 (Replies ''[{"q":1},{"q":2}]'') 3 ''easy'' ''hygiene'' quiz_empty) = 200\<close>
    by (simp add: start_quiz_def pregenerate_short Let_def)
  have b: \<open>[JObject [(''q'', JNumber 1)], JObject [(''q'', JNumber 2)]]
      = fst (pregenerateQuestions 7 (Replies ''[{"q":1},{"q":2}]'') ''easy'' ''hygiene'' 3
          (questionCache quiz_empty))\<close>
    by (simp add: pregenerate_short)
  have m: "member (JObject [(''q'', JNumber 2), (''questionIndex'', JNumber 1)]) ''q'' = Some (JNumber 2)"
    by (simp add: member_def)
  from quiz_serves_its_pool [OF a b]
  have \<open>map body (generate_questions
           (length [JObject [(''q'', JNumber 1)], JObject [(''q'', JNumber 2)]] + 1)
           (Some (JString (toString 7)))
           (st (start_quiz 7 (Replies ''[{"q":1},{"q":2}]'') 3 ''easy'' ''hygiene'' quiz_empty))) =
         map (\<lambda>i. Json (JObject (obj_set ''questionIndex'' (JNumber (of_nat i))
                    (spread (Some ([JObject [(''q'', JNumber 1)], JObject [(''q'', JNumber 2)]] ! i))))))
           [0 ..< length [JObject [(''q'', JNumber 1)], JObject [(''q'', JNumber 2)]]]
         @ [Json (JObject [(''quizCompleted'', JBool True)])]\<close>
    by blast
  then have r: \<open>map body (generate_questions (2 + 1) id7 quiz_short) =
       [Json (JObject [(''q'', JNumber 1), (''questionIndex'', JNumber 0)]),
        Json (JObject [(''q'', JNumber 2), (''questionIndex'', JNumber 1)]),
        Json (JObject [(''quizCompleted'', JBool True)])]\<close>
    by (simp add: quiz_short_def [symmetric] toString_7 id7_def spread_def Object_entries_def
        set_question_index upt_conv_Cons numeral_3_eq_3 del: generate_questions.simps)
  show ?thesis
    using a m r by (simp add: pregenerate_short numeral_3_eq_3 del: generate_questions.simps)
qed

section \<open>Validation of the process steps\<close>

lemma bad_request_is_one [simp]: "\<exists>e' d'. bad_request e d = bad_request e' d'"
  by blast

lemma check_parameters_rejects:
  "check_parameters step ps = Some r \<Longrightarrow> \<exists>e d. r = bad_request e d"
  by (induction ps) (auto split: json.splits option.splits if_splits prod.splits)

lemma check_steps_rejects:
  "check_steps xs = Some r \<Longrightarrow> \<exists>e d. r = bad_request e d"
  by (induction xs) (auto split: option.splits if_splits dest: check_parameters_rejects)

lemma validate_rejects:
  "validateProcessSteps ps = Inl r \<Longrightarrow> \<exists>e d. r = bad_request e d"
  by (auto simp: validateProcessSteps_def split: option.splits if_splits dest: check_steps_rejects)

lemma validate_passes:
  "validateProcessSteps ps = Inr steps \<Longrightarrow> ps = Some steps"
  by (auto simp: validateProcessSteps_def split: option.splits if_splits)

lemma check_parameters_passes:
  assumes "check_parameters step ps = None" and "(param, val) \<in> set ps"
  shows "\<exists>x. val = JNumber x
    \<and> (\<forall>lo hi. map_of parameterLimits param = Some (lo, hi) \<longrightarrow> of_nat lo \<le> x \<and> x \<le> of_nat hi)"
  using assms
  by (induction ps) (auto split: json.splits option.splits if_splits prod.splits)

lemma check_steps_passes:
  assumes "check_steps xs = None" and "(step, parameters) \<in> set xs"
  shows "check_parameters step (Object_entries parameters) = None"
  using assms
  by (induction xs) (auto split: option.splits if_splits)

text \<open>
  What the validation does reject: a parameter whose value is not a number, and a number
  outside the range that \<open>parameterLimits\<close> gives for the parameter's name as the source
  spells it. The request is answered 400, without a Gateway call and with the cache as it
  was.
\<close>

lemma optimize_rejects_bad_parameter:
  assumes "(step, parameters) \<in> set (Object_entries steps)"
    and "(param, val) \<in> set (Object_entries parameters)"
    and "(\<forall>x. val \<noteq> JNumber x)
       \<or> (\<exists>x lo hi. val = JNumber x \<and> map_of parameterLimits param = Some (lo, hi)
            \<and> (x < of_nat lo \<or> of_nat hi < x))"
  shows "status (optimize now timestamp gw stringify (Some steps) cache) = 400
    \<and> calls (optimize now timestamp gw stringify (Some steps) cache) = 0
    \<and> st (optimize now timestamp gw stringify (Some steps) cache) = cache
    \<and> (\<exists>e d. body (optimize now timestamp gw stringify (Some steps) cache)
               = Json (JObject [(''error'', JString e), (''details'', JString d)]))
    \<and> map snd parameterLimits = [(0, 150), (0, 10), (0, 24), (0, 5000), (0, 100)]"
proof -
  have "validateProcessSteps (Some steps) \<noteq> Inr z" for z
  proof
    assume v: "validateProcessSteps (Some steps) = Inr z"
    then have "check_steps (Object_entries steps) = None"
      by (auto simp: validateProcessSteps_def split: if_splits option.splits)
    from check_parameters_passes [OF check_steps_passes [OF this assms(1)] assms(2)] assms(3)
    show False by (auto simp: not_less)
  qed
  then obtain r where r: "validateProcessSteps (Some steps) = Inl r"
    by (cases "validateProcessSteps (Some steps)") auto
  from validate_rejects [OF r] obtain e d where "r = bad_request e d"
    by blast
  with r show ?thesis
    by (auto simp: optimize_def bad_request_def parameterLimits_def)
qed

lemma temperature_limit: "map_of parameterLimits temperature_key = Some (0, 150)"
  by (simp add: parameterLimits_def)

lemma optimize_rejects_listed_temperature:
  "(''Mixing'', JObject [(temperature_key, JNumber 200)]) \<in> set (Object_entries hot_steps)
   \<and> (temperature_key, JNumber 200) \<in> set (Object_entries (JObject [(temperature_key, JNumber 200)]))
   \<and> map_of parameterLimits temperature_key = Some (0, 150)
   \<and> (rat_of_nat 150 < 200)
   \<and> status (optimize 7 ''t'' (Replies ''{}'') stringify_mild (Some hot_steps) Map.empty) = 400
   \<and> calls (optimize 7 ''t'' (Replies ''{}'') stringify_mild (Some hot_steps) Map.empty) = 0
   \<and> st (optimize 7 ''t'' (Replies ''{}'') stringify_mild (Some hot_steps) Map.empty) = Map.empty"
proof -
  have a: "(''Mixing'', JObject [(temperature_key, JNumber 200)]) \<in> set (Object_entries hot_steps)"
    by (simp add: hot_steps_def Object_entries_def)
  have b: "(temperature_key, JNumber 200)
      \<in> set (Object_entries (JObject [(temperature_key, JNumber 200)]))"
    by (simp add: Object_entries_def)
  have c: "(\<forall>x. JNumber 200 \<noteq> JNumber x)
       \<or> (\<exists>x lo hi. JNumber 200 = JNumber x \<and> map_of parameterLimits temperature_key = Some (lo, hi)
            \<and> (x < of_nat lo \<or> of_nat hi < x))"
    using temperature_limit by simp
  show ?thesis
    using a b temperature_limit
      optimize_rejects_bad_parameter [OF a b c, of 7 "''t''" "Replies ''{}''" stringify_mild Map.empty]
    by simp
qed

lemma degree_key_unlisted: "map_of parameterLimits degree_key = None"
  by (simp add: parameterLimits_def degree_key_def temperature_key_def)

lemma degree_steps_pass: "validateProcessSteps (Some degree_steps) = Inr degree_steps"
  by (simp add: validateProcessSteps_def degree_steps_def truthy_def Object_keys_def
      Object_entries_def typeof_object_def degree_key_unlisted)

text \<open>
  C8: the code at a temperature of 200. The source spells the temperature key of
  \<open>parameterLimits\<close> with the bytes C3 82 C2 B0 before the \<open>C\<close>, so the key
  \<^verbatim>\<open>Temperature (\<degree>C)\<close> with the degree sign (bytes C2 B0) names no limit: a request whose
  step has that parameter at 200 passes the validation and reaches the Gateway (here a
  failing one, hence the 500 after one call) instead of being answered 400.
\<close>

theorem ordinary_temperature_key_passes:
  "map_of parameterLimits degree_key = None
   \<and> map_of parameterLimits temperature_key = Some (0, 150)
   \<and> degree_key \<noteq> temperature_key
   \<and> optimize 7 ''t'' Fails stringify_mild (Some degree_steps) Map.empty
       = \<lparr>st = Map.empty, status = 500,
          body = ErrorBody ''Failed to optimize process'' (Some GatewayError), calls = 1\<rparr>"
proof -
  have "degree_key \<noteq> temperature_key"
    by (simp add: degree_key_def temperature_key_def)
  then show ?thesis
    by (simp add: degree_key_unlisted temperature_limit optimize_def degree_steps_pass
        optimize_handler_def Let_def cache_get_def truthy_def)
qed

lemma bad_request_status [simp]: "fst (bad_request e d) = 400"
  by (simp add: bad_request_def)

lemma check_parameters_status:
  "check_parameters step ps = Some r \<Longrightarrow> fst r = 400"
  by (induction ps) (auto split: json.splits option.splits if_splits prod.splits)

lemma check_steps_status:
  "check_steps xs = Some r \<Longrightarrow> fst r = 400"
  by (induction xs) (auto split: option.splits if_splits dest: check_parameters_status)

lemma validate_status:
  "validateProcessSteps ps = Inl r \<Longrightarrow> fst r = 400"
  by (auto simp: validateProcessSteps_def split: if_splits option.splits dest: check_steps_status)

lemma optimize_ok_handler:
  assumes "status (optimize now timestamp gw stringify (Some steps) cache) = 200"
  shows "optimize now timestamp gw stringify (Some steps) cache
       = optimize_handler now timestamp gw stringify steps cache"
proof (cases "validateProcessSteps (Some steps)")
  case (Inl r)
  with validate_status [OF Inl] assms show ?thesis by (simp add: optimize_def)
next
  case (Inr z)
  with validate_passes [OF Inr] show ?thesis by (simp add: optimize_def)
qed

lemma truthy_object [simp]: "truthy (Some (JObject kvs))"
  by (simp add: truthy_def)

lemma truthy_None [simp]: "\<not> truthy None"
  by (simp add: truthy_def)

lemma handler_hit:
  assumes "truthy (fst (cache_get now (stringify steps) cache))"
  shows "optimize_handler now timestamp gw stringify steps cache
       = \<lparr>st = snd (cache_get now (stringify steps) cache), status = 200,
          body = Json (from_cache (fst (cache_get now (stringify steps) cache))), calls = 0\<rparr>"
  using assms by (simp add: optimize_handler_def Let_def)

lemma handler_miss:
  assumes "\<not> truthy (fst (cache_get now (stringify steps) cache))"
    and "status (optimize_handler now timestamp gw stringify steps cache) = 200"
  shows "\<exists>response. optimize_handler now timestamp gw stringify steps cache
       = \<lparr>st = cache_set now (stringify steps) (JObject response)
                 (snd (cache_get now (stringify steps) cache)),
          status = 200, body = Json (JObject response), calls = 1\<rparr>"
  using assms
  by (simp add: optimize_handler_def Let_def split: gateway.splits sum.splits)

lemma cache_get_hit:
  assumes "fst (cache_get now key cache) = Some x"
  shows "\<exists>e. cache key = Some e \<and> cached e = x \<and> now \<le> expires e
    \<and> snd (cache_get now key cache) = cache"
  using assms by (auto simp: cache_get_def split: option.splits if_splits)

lemma cache_get_fresh:
  assumes "cache key = Some e" and "now \<le> expires e"
  shows "cache_get now key cache = (Some (cached e), cache)"
  using assms by (simp add: cache_get_def)

lemma from_cache_object:
  "from_cache (Some (JObject kvs)) = JObject (obj_set ''fromCache'' (JBool True) kvs)"
  by (simp add: from_cache_def spread_def Object_entries_def)

lemma from_cache_flag: "member (from_cache x) ''fromCache'' = Some (JBool True)"
  by (simp add: from_cache_def member_obj_set)

section \<open>A repeated optimization is served from the cache\<close>

text \<open>
  C9. When \<^verbatim>\<open>/optimize\<close> has answered 200 for \<open>processSteps\<close> and the cache entry of that
  answer has not expired at the time of a second request with the same \<open>processSteps\<close>,
  the second request makes no Gateway call, leaves the cache as it was and answers 200 with
  the cached result and \<open>fromCache = true\<close>: its body has \<open>fromCache = true\<close> and every
  other member as the cached object has it. When the first request has called the Gateway,
  the cached result is the object it answered and the entry expires no earlier than one
  hour after the request; otherwise the first request was itself served from the cache and
  answered the same body as the second.
\<close>

theorem optimize_twice:
  assumes "status (optimize t1 ts1 gw1 stringify (Some steps) cache) = 200"
    and "st (optimize t1 ts1 gw1 stringify (Some steps) cache) (stringify steps) = Some e"
    and "t2 \<le> expires e"
  shows "optimize t2 ts2 gw2 stringify (Some steps) (st (optimize t1 ts1 gw1 stringify (Some steps) cache))
       = \<lparr>st = st (optimize t1 ts1 gw1 stringify (Some steps) cache), status = 200,
          body = Json (from_cache (Some (cached e))), calls = 0\<rparr>
    \<and> member (from_cache (Some (cached e))) ''fromCache'' = Some (JBool True)
    \<and> (\<forall>kvs k. cached e = JObject kvs \<and> k \<noteq> ''fromCache'' \<longrightarrow>
          member (from_cache (Some (cached e))) k = map_of kvs k)
    \<and> (calls (optimize t1 ts1 gw1 stringify (Some steps) cache) = 1 \<longrightarrow>
          t1 + 3600000 \<le> expires e
          \<and> body (optimize t1 ts1 gw1 stringify (Some steps) cache) = Json (cached e)
          \<and> (\<exists>kvs. cached e = JObject kvs))
    \<and> (calls (optimize t1 ts1 gw1 stringify (Some steps) cache) \<noteq> 1 \<longrightarrow>
          body (optimize t1 ts1 gw1 stringify (Some steps) cache)
            = Json (from_cache (Some (cached e))))"
proof -
  let ?r1 = "optimize t1 ts1 gw1 stringify (Some steps) cache"
  let ?key = "stringify steps"
  have h: "?r1 = optimize_handler t1 ts1 gw1 stringify steps cache"
    by (rule optimize_ok_handler [OF assms(1)])
  have v: "validateProcessSteps (Some steps) = Inr steps"
  proof (cases "validateProcessSteps (Some steps)")
    case (Inl r)
    with validate_status [OF Inl] assms(1) show ?thesis by (simp add: optimize_def)
  next
    case (Inr z)
    with validate_passes [OF Inr] show ?thesis by simp
  qed
  have first: "truthy (Some (cached e))
      \<and> (calls ?r1 = 1 \<longrightarrow> t1 + 3600000 \<le> expires e \<and> body ?r1 = Json (cached e)
            \<and> (\<exists>kvs. cached e = JObject kvs))
      \<and> (calls ?r1 \<noteq> 1 \<longrightarrow> body ?r1 = Json (from_cache (Some (cached e))))"
  proof (cases "truthy (fst (cache_get t1 ?key cache))")
    case True
    then obtain x where x: "fst (cache_get t1 ?key cache) = Some x"
      by (cases "fst (cache_get t1 ?key cache)") auto
    from cache_get_hit [OF x] obtain e0 where e0: "cache ?key = Some e0" "cached e0 = x"
      "snd (cache_get t1 ?key cache) = cache"
      by blast
    have r: "?r1 = \<lparr>st = cache, status = 200, body = Json (from_cache (Some x)), calls = 0\<rparr>"
      using True handler_hit [where now = t1 and stringify = stringify and steps = steps
          and cache = cache and timestamp = ts1 and gw = gw1] x e0(3) h
      by simp
    with assms(2) e0 have "e = e0" by simp
    with r e0 True x show ?thesis by simp
  next
    case False
    from False assms(1) h
      handler_miss [where now = t1 and stringify = stringify and steps = steps
        and cache = cache and timestamp = ts1 and gw = gw1]
    obtain response where
      r: "?r1 = \<lparr>st = cache_set t1 ?key (JObject response) (snd (cache_get t1 ?key cache)),
          status = 200, body = Json (JObject response), calls = 1\<rparr>"
      by auto
    with assms(2) have "e = \<lparr>cached = JObject response, expires = t1 + 3600000\<rparr>"
      by (simp add: cache_set_def stdTTL_def)
    with r show ?thesis by simp
  qed
  have second: "optimize_handler t2 ts2 gw2 stringify steps (st ?r1)
       = \<lparr>st = st ?r1, status = 200, body = Json (from_cache (Some (cached e))), calls = 0\<rparr>"
    using first assms(2,3)
      cache_get_fresh [where cache = "st ?r1" and key = ?key and e = e and now = t2]
      handler_hit [where now = t2 and stringify = stringify and steps = steps
        and cache = "st ?r1" and timestamp = ts2 and gw = gw2]
    by simp
  have content: "\<forall>kvs k. cached e = JObject kvs \<and> k \<noteq> ''fromCache'' \<longrightarrow>
          member (from_cache (Some (cached e))) k = map_of kvs k"
    by (simp add: from_cache_object member_obj_set_other)
  have call: "optimize t2 ts2 gw2 stringify (Some steps) (st ?r1)
       = \<lparr>st = st ?r1, status = 200, body = Json (from_cache (Some (cached e))), calls = 0\<rparr>"
    using second v by (simp add: optimize_def)
  from call from_cache_flag content first show ?thesis
    by blast
qed

lemma parse_reply:
  \<open>JSON_parse ''{"optimizations":{},"summary":{}}''
     = Some (JObject [(''optimizations'', JObject []), (''summary'', JObject [])])\<close>
  by (simp add: parse_defs)

lemma mild_steps_valid: "validateProcessSteps (Some mild_steps) = Inr mild_steps"
  by (simp add: validateProcessSteps_def mild_steps_def truthy_def Object_keys_def
      Object_entries_def typeof_object_def parameterLimits_def temperature_key_def)

lemma mild_first:
  \<open>optimize 7 ''t'' (Replies ''{"optimizations":{},"summary":{}}'') stringify_mild (Some mild_steps)
      Map.empty
   = \<lparr>st = [''{"Mixing":{"Time (h)":2}}'' \<mapsto> \<lparr>cached = mild_response, expires = 3600007\<rparr>],
      status = 200, body = Json mild_response, calls = 1\<rparr>\<close>
  by (simp add: optimize_def mild_steps_valid optimize_handler_def Let_def cache_get_def
      cache_set_def stdTTL_def stringify_mild_def parse_optimization_def
      extractJSONFromResponse_def parse_reply member_def truthy_def spread_def Object_entries_def
      obj_set_def array_index_def is_digit_def mild_response_def)

lemma mild_from_cache:
  \<open>from_cache (Some mild_response) =
     JObject [(''optimizations'', JObject []), (''summary'', JObject []),
       (''metadata'', JObject [(''timestamp'', JString ''t''),
          (''processStepsHash'', JString ''{"Mixing":{"Time (h)":2}}''),
          (''version'', JString ''1.0'')]),
       (''fromCache'', JBool True)]\<close>
  by (simp add: mild_response_def from_cache_object obj_set_def array_index_def is_digit_def)

text \<open>
  C9 at two requests, one millisecond apart, the first of which generates.
\<close>

theorem optimize_twice_witness:
  \<open>optimize 7 ''t'' (Replies ''{"optimizations":{},"summary":{}}'') stringify_mild
       (Some mild_steps) Map.empty
     = \<lparr>st = [''{"Mixing":{"Time (h)":2}}'' \<mapsto> \<lparr>cached = mild_response, expires = 3600007\<rparr>],
        status = 200, body = Json mild_response, calls = 1\<rparr>
   \<and> stringify_mild mild_steps = ''{"Mixing":{"Time (h)":2}}''
   \<and> (8::nat) \<le> 3600007
   \<and> optimize 8 ''u'' Fails stringify_mild (Some mild_steps)
        [''{"Mixing":{"Time (h)":2}}'' \<mapsto> \<lparr>cached = mild_response, expires = 3600007\<rparr>]
     = \<lparr>st = [''{"Mixing":{"Time (h)":2}}'' \<mapsto> \<lparr>cached = mild_response, expires = 3600007\<rparr>],
        status = 200,
        body = Json (JObject [(''optimizations'', JObject []), (''summary'', JObject []),
          (''metadata'', JObject [(''timestamp'', JString ''t''),
             (''processStepsHash'', JString ''{"Mixing":{"Time (h)":2}}''),
             (''version'', JString ''1.0'')]),
          (''fromCache'', JBool True)]),
        calls = 0\<rparr>\<close>
proof -
  let ?r1 = \<open>optimize 7 ''t'' (Replies ''{"optimizations":{},"summary":{}}'') stringify_mild
       (Some mild_steps) Map.empty\<close>
  let ?e = "\<lparr>cached = mild_response, expires = 3600007\<rparr>"
  have a: "status ?r1 = 200"
    by (simp add: mild_first)
  have b: "st ?r1 (stringify_mild mild_steps) = Some ?e"
    by (simp add: mild_first stringify_mild_def)
  have c: "8 \<le> expires ?e"
    by simp
  have k: \<open>stringify_mild mild_steps = ''{"Mixing":{"Time (h)":2}}''\<close>
    by (simp add: stringify_mild_def)
  show ?thesis
    using k optimize_twice [OF a b c, of "''u''" Fails]
    by (simp add: mild_first mild_from_cache)
qed

lemma parse_a1: \<open>JSON_parse ''{"a":1}'' = Some (JObject [(''a'', JNumber 1)])\<close>
  by (simp add: parse_defs)

lemma parse_fenced_a1:
  \<open>JSON_parse (''```json'' @ [CHR 0x0A] @ ''{"a":1}'' @ [CHR 0x0A] @ ''```'') = None\<close>
  by (simp add: parse_defs)

lemma match_fenced_a1:
  \<open>match_fenced (''```json'' @ [CHR 0x0A] @ ''{"a":1}'' @ [CHR 0x0A] @ ''```'') = Some ''{"a":1}''\<close>
  by (simp add: fenced_at_def fenced_body_def starts_with_def is_space_def)

lemma extract_fenced:
  \<open>extractJSONFromResponse (''```json'' @ [CHR 0x0A] @ ''{"a":1}'' @ [CHR 0x0A] @ ''```'')
     = Inr (JObject [(''a'', JNumber 1)])\<close>
  unfolding extractJSONFromResponse_def parse_fenced_a1 match_fenced_a1 by (simp add: parse_a1)

lemma parse_no_json: "JSON_parse ''no json here'' = None"
  by (simp add: parse_defs)

lemma extract_no_json:
  "extractJSONFromResponse ''no json here'' = Inl (Error ''No valid JSON found in response'')"
  unfolding extractJSONFromResponse_def parse_no_json
  by (simp add: fenced_at_def starts_with_def)

section \<open>The extractor and the shape of the reply\<close>

text \<open>
  C7. \<open>extractJSONFromResponse\<close> returns the object \<^verbatim>\<open>{a: 1}\<close> for the fenced text, and
  fails with the error "No valid JSON found in response" for \<^verbatim>\<open>no json here\<close>; and when the
  value extracted from a reply lacks \<open>optimizations\<close> or \<open>summary\<close>, the optimization
  fails with another error (for a value that is not \<open>null\<close>, "Invalid response structure
  from AI model") and answers 500.
\<close>

theorem extractor_examples:
  assumes "extractJSONFromResponse content = Inr x"
    and "member x ''optimizations'' = None \<or> member x ''summary'' = None"
    and "\<not> truthy (fst (cache_get now (stringify steps) cache))"
  shows \<open>extractJSONFromResponse (''```json'' @ [CHR 0x0A] @ ''{"a":1}'' @ [CHR 0x0A] @ ''```'')
       = Inr (JObject [(''a'', JNumber 1)])
    \<and> extractJSONFromResponse ''no json here'' = Inl (Error ''No valid JSON found in response'')
    \<and> (\<exists>e. parse_optimization content = Inl e
          \<and> e \<noteq> Error ''No valid JSON found in response''
          \<and> (x \<noteq> JNull \<longrightarrow> e = Error ''Invalid response structure from AI model'')
          \<and> optimize_handler now timestamp (Replies content) stringify steps cache
             = \<lparr>st = snd (cache_get now (stringify steps) cache), status = 500,
                body = ErrorBody ''Failed to parse optimization response'' (Some e),
                calls = 1\<rparr>)\<close>
proof -
  have p: "parse_optimization content
      = Inl (if x = JNull then TypeError else Error ''Invalid response structure from AI model'')"
    using assms(1,2) by (auto simp: parse_optimization_def)
  have h: "optimize_handler now timestamp (Replies content) stringify steps cache
         = \<lparr>st = snd (cache_get now (stringify steps) cache), status = 500,
            body = ErrorBody ''Failed to parse optimization response''
              (Some (if x = JNull then TypeError
                     else Error ''Invalid response structure from AI model'')),
            calls = 1\<rparr>"
    using assms(3) by (simp add: optimize_handler_def Let_def p)
  show ?thesis
    using p h extract_fenced extract_no_json by auto
qed

text \<open>
  C7 at the reply \<^verbatim>\<open>{"a":1}\<close>, which parses and has neither key.
\<close>

theorem extractor_examples_witness:
  \<open>extractJSONFromResponse ''{"a":1}'' = Inr (JObject [(''a'', JNumber 1)])
   \<and> member (JObject [(''a'', JNumber 1)]) ''optimizations'' = None
   \<and> \<not> truthy (fst (cache_get 7 (stringify_mild mild_steps) Map.empty))
   \<and> parse_optimization ''{"a":1}'' = Inl (Error ''Invalid response structure from AI model'')
   \<and> optimize_handler 7 ''t'' (Replies ''{"a":1}'') stringify_mild mild_steps Map.empty
      = \<lparr>st = Map.empty, status = 500,
         body = ErrorBody ''Failed to parse optimization response''
           (Some (Error ''Invalid response structure from AI model'')),
         calls = 1\<rparr>\<close>
proof -
  have a: \<open>extractJSONFromResponse ''{"a":1}'' = Inr (JObject [(''a'', JNumber 1)])\<close>
    by (simp add: extractJSONFromResponse_def parse_a1)
  have b: "member (JObject [(''a'', JNumber 1)]) ''optimizations'' = None
      \<or> member (JObject [(''a'', JNumber 1)]) ''summary'' = None"
    by (simp add: member_def)
  have c: "\<not> truthy (fst (cache_get 7 (stringify_mild mild_steps) Map.empty))"
    by (simp add: cache_get_def)
  have g: "snd (cache_get 7 (stringify_mild mild_steps) Map.empty) = Map.empty"
    by (simp add: cache_get_def)
  show ?thesis
    using a b c g
      extractor_examples [where content = \<open>''{"a":1}''\<close> and x = "JObject [(''a'', JNumber 1)]"
        and now = 7 and stringify = stringify_mild and steps = mild_steps and cache = Map.empty
        and timestamp = "''t''"]
    by (auto simp: member_def)
qed

end
